theory Spec2Isabelle
  imports Complex_Main "HOL-Library.AList" "HOL-Library.Sublist"
begin

section \<open>The backtesting exchange of basana (basana/backtesting/exchange.py)\<close>

text \<open>
  A shallow embedding of \<^verbatim>\<open>basana/backtesting/exchange.py\<close>: the classes
  \<^verbatim>\<open>OrderIndex\<close> and \<^verbatim>\<open>Exchange\<close>. The modules the file imports
  (\<^verbatim>\<open>core.helpers\<close>, \<^verbatim>\<open>backtesting.helpers\<close>, \<^verbatim>\<open>orders\<close>,
  \<^verbatim>\<open>requests\<close>, \<^verbatim>\<open>account_balances\<close>, \<^verbatim>\<open>liquidity\<close>, \<^verbatim>\<open>fees\<close>)
  are not part of the sources at hand. Small helpers of theirs are modelled from the
  specification (each such definition says so); the pluggable parts (fee strategy,
  liquidity strategy, request validation, the per-variant fill computation of an order)
  are parameters.

  Conventions.
  \<^item> A Python \<^verbatim>\<open>Decimal\<close> is an exact rational; the 28-digit context precision, NaN
    and infinities are not modelled.
  \<^item> A \<^verbatim>\<open>Dict[str, Decimal]\<close> is an association list in insertion order
    (\<open>map_of\<close> is \<^verbatim>\<open>get\<close>, \<open>AList.update\<close> is item assignment); a well-formed
    dictionary has distinct keys.
  \<^item> Dictionaries that are only looked up (keyed by pair or by order id) are maps.
  \<^item> \<^verbatim>\<open>raise Error(...)\<close> and a failing \<^verbatim>\<open>assert\<close> are values of type \<open>error\<close>.
\<close>

subsection \<open>Decimals and rounding (basana.core.helpers)\<close>

type_synonym decimal = rat

datatype rounding = ROUND_DOWN | ROUND_HALF_EVEN | ROUND_UP

text \<open>Python truthiness of an \<^verbatim>\<open>Optional[Decimal]\<close>: \<^verbatim>\<open>None\<close> and zero are false.\<close>

definition truthy :: "decimal option \<Rightarrow> bool" where
  "truthy x = (case x of None \<Rightarrow> False | Some v \<Rightarrow> v \<noteq> 0)"

text \<open>
  Modelled from the spec: the rounding of \<^verbatim>\<open>decimal.quantize\<close> to an integer, which
  \<^verbatim>\<open>core.helpers.round_decimal\<close> and \<^verbatim>\<open>core.helpers.truncate_decimal\<close> (not in the
  sources) rely on. The spec names three disciplines: truncation toward zero,
  round-half-even, and rounding up (away from zero).
\<close>

definition round_to_integral :: "rounding \<Rightarrow> decimal \<Rightarrow> int" where
  "round_to_integral mode x =
     (case mode of
        ROUND_DOWN \<Rightarrow> (if x < 0 then \<lceil>x\<rceil> else \<lfloor>x\<rfloor>)
      | ROUND_UP \<Rightarrow> (if x < 0 then \<lfloor>x\<rfloor> else \<lceil>x\<rceil>)
      | ROUND_HALF_EVEN \<Rightarrow>
          (let f = \<lfloor>x\<rfloor>; r = x - of_int f
           in if r < 1 / 2 then f
              else if 1 / 2 < r then f + 1
              else if even f then f else f + 1))"

text \<open>
  Modelled from the spec: \<^verbatim>\<open>core.helpers.round_decimal(value, precision, rounding)\<close>,
  the value rounded to \<open>precision\<close> decimal places; the default rounding is half-even.
\<close>

definition round_decimal :: "decimal \<Rightarrow> nat \<Rightarrow> rounding \<Rightarrow> decimal" where
  "round_decimal v precision mode =
     of_int (round_to_integral mode (v * 10 ^ precision)) / 10 ^ precision"

text \<open>
  Modelled from the spec: \<^verbatim>\<open>core.helpers.truncate_decimal(value, precision)\<close>,
  truncation toward zero to \<open>precision\<close> decimal places.
\<close>

definition truncate_decimal :: "decimal \<Rightarrow> nat \<Rightarrow> decimal" where
  "truncate_decimal v precision = round_decimal v precision ROUND_DOWN"

subsection \<open>Pairs, bars, events\<close>

record pair =
  base_symbol :: string
  quote_symbol :: string

record pair_info =
  base_precision :: nat
  quote_precision :: nat

record bar =
  bar_pair :: pair
  bar_open :: decimal
  bar_high :: decimal
  bar_low :: decimal
  bar_close :: decimal
  bar_volume :: decimal

text \<open>An event of the dispatcher: a bar event carries its bar; anything else is opaque.\<close>

datatype event = BarEvent bar | OtherEvent string

subsection \<open>Amount dictionaries (basana.backtesting.helpers)\<close>

type_synonym amounts = "(string \<times> decimal) list"

datatype order_operation = BUY | SELL

text \<open>\<^verbatim>\<open>amounts.get(symbol, Decimal(0))\<close>\<close>

definition get_amount :: "amounts \<Rightarrow> string \<Rightarrow> decimal" where
  "get_amount d s = (case map_of d s of None \<Rightarrow> 0 | Some v \<Rightarrow> v)"

text \<open>Modelled from the spec: \<^verbatim>\<open>helpers.get_base_sign_for_operation\<close>, +1 for BUY and -1 for SELL.\<close>

definition get_base_sign_for_operation :: "order_operation \<Rightarrow> decimal" where
  "get_base_sign_for_operation operation = (case operation of BUY \<Rightarrow> 1 | SELL \<Rightarrow> - 1)"

text \<open>Modelled from the spec: \<^verbatim>\<open>helpers.get_sign\<close>, the sign of a decimal as +1 or -1.\<close>

definition get_sign :: "decimal \<Rightarrow> decimal" where
  "get_sign v = (if v < 0 then - 1 else 1)"

text \<open>Modelled from the spec: \<^verbatim>\<open>helpers.remove_empty_amounts\<close>, which drops the zero entries.\<close>

definition remove_empty_amounts :: "amounts \<Rightarrow> amounts" where
  "remove_empty_amounts d = filter (\<lambda>(s, v). v \<noteq> 0) d"

text \<open>
  Modelled from the spec: \<^verbatim>\<open>helpers.add_amounts\<close>, the componentwise sum over the keys
  of either dictionary (a missing entry counts as zero). The keys of the left operand
  come first, then the new keys of the right one.
\<close>

definition add_amounts :: "amounts \<Rightarrow> amounts \<Rightarrow> amounts" where
  "add_amounts lhs rhs =
     map (\<lambda>s. (s, get_amount lhs s + get_amount rhs s))
         (remdups (map fst lhs @ map fst rhs))"

subsection \<open>Orders and order requests (basana.backtesting.orders, requests)\<close>

datatype order_state = OPEN | COMPLETED | CANCELED

text \<open>The four variants with their own parameters (prices, and the trigger latch).\<close>

datatype order_kind =
    Market
  | Limit decimal
  | Stop decimal bool
  | StopLimit decimal decimal bool

record order =
  order_id :: string
  operation :: order_operation
  order_pair :: pair
  amount :: decimal
  amount_filled :: decimal
  fees :: amounts
  state :: order_state
  kind :: order_kind

definition is_open :: "order \<Rightarrow> bool" where
  "is_open ord = (state ord = OPEN)"

text \<open>Modelled from the spec: \<^verbatim>\<open>Order.cancel\<close> sets the state to CANCELED.\<close>

definition cancel :: "order \<Rightarrow> order" where
  "cancel ord = ord\<lparr>state := CANCELED\<rparr>"

text \<open>
  Modelled from the spec: \<^verbatim>\<open>Order.not_filled\<close>. A market order cancels itself on a
  bar that fills nothing; every other kind stays open.
\<close>

definition not_filled :: "order \<Rightarrow> order" where
  "not_filled ord = (case kind ord of Market \<Rightarrow> cancel ord | _ \<Rightarrow> ord)"

datatype error =
    Error_order_not_found
  | Error_not_open string order_state
  | Error_not_enough string decimal decimal
  | Error_validation string
  | AssertionError string
  | KeyError string

text \<open>
  Modelled from the spec: \<^verbatim>\<open>Order.add_fill(balance_updates, fees)\<close> increments
  \<open>amount_filled\<close> by the absolute base amount, accumulates the fees, and completes the
  order when it is filled whole. Indexing a dictionary at a missing key raises.
\<close>

definition add_fill :: "order \<Rightarrow> amounts \<Rightarrow> amounts \<Rightarrow> error + order" where
  "add_fill ord balance_updates fs =
     (case map_of balance_updates (base_symbol (order_pair ord)) of
        None \<Rightarrow> Inl (KeyError (base_symbol (order_pair ord)))
      | Some base_amount \<Rightarrow>
          (let filled = amount_filled ord + \<bar>base_amount\<bar>
           in Inr (ord\<lparr>amount_filled := filled,
                       fees := add_amounts (fees ord) fs,
                       state := (if filled = amount ord then COMPLETED else state ord)\<rparr>)))"

record order_request =
  req_operation :: order_operation
  req_pair :: pair
  req_amount :: decimal
  req_kind :: order_kind

text \<open>
  Modelled from the spec: \<^verbatim>\<open>ExchangeOrder.get_estimated_fill_price\<close>. Limit orders
  use the limit price, stop and stop-limit orders the stop price, market orders none.
\<close>

definition get_estimated_fill_price :: "order_request \<Rightarrow> decimal option" where
  "get_estimated_fill_price req =
     (case req_kind req of
        Market \<Rightarrow> None
      | Limit limit_price \<Rightarrow> Some limit_price
      | Stop stop_price _ \<Rightarrow> Some stop_price
      | StopLimit stop_price _ _ \<Rightarrow> Some stop_price)"

text \<open>
  Modelled from the spec: \<^verbatim>\<open>ExchangeOrder.create_order(id)\<close>, the open and unfilled
  order of the request under the given id.
\<close>

definition request_create_order :: "order_request \<Rightarrow> string \<Rightarrow> order" where
  "request_create_order req ident =
     \<lparr>order_id = ident, operation = req_operation req, order_pair = req_pair req,
      amount = req_amount req, amount_filled = 0, fees = [], state = OPEN,
      kind = req_kind req\<rparr>"

subsection \<open>The balance ledger (basana.backtesting.account_balances)\<close>

text \<open>
  Modelled from the spec: per symbol the available funds, and per order id and symbol
  the funds held for that order.
\<close>

record account_balances =
  available :: "string \<Rightarrow> decimal"
  holds :: "string \<Rightarrow> string \<Rightarrow> decimal"

text \<open>Modelled from the spec: \<^verbatim>\<open>AccountBalances(initial_balances)\<close>, no holds.\<close>

definition init_balances :: "amounts \<Rightarrow> account_balances" where
  "init_balances initial = \<lparr>available = get_amount initial, holds = (\<lambda>_ _. 0)\<rparr>"

definition get_available_balance :: "account_balances \<Rightarrow> string \<Rightarrow> decimal" where
  "get_available_balance bal s = available bal s"

definition get_balance_on_hold_for_order :: "account_balances \<Rightarrow> string \<Rightarrow> string \<Rightarrow> decimal" where
  "get_balance_on_hold_for_order bal ident s = holds bal ident s"

text \<open>
  Modelled from the spec: \<^verbatim>\<open>order_accepted(order, required)\<close> moves each required
  amount from available to the hold of the order; holding more than is available is a
  programming error.
\<close>

fun hold_required :: "string \<Rightarrow> amounts \<Rightarrow> account_balances \<Rightarrow> error + account_balances" where
  "hold_required ident [] bal = Inr bal"
| "hold_required ident ((s, r) # rest) bal =
     (if available bal s < r then Inl (AssertionError s)
      else hold_required ident rest
             (bal\<lparr>available := (available bal)(s := available bal s - r),
                  holds := (holds bal)(ident := (holds bal ident)(s := holds bal ident s + r))\<rparr>))"

definition order_accepted :: "account_balances \<Rightarrow> order \<Rightarrow> amounts \<Rightarrow> error + account_balances" where
  "order_accepted bal ord required = hold_required (order_id ord) required bal"

text \<open>
  Modelled from the spec: \<^verbatim>\<open>order_updated(order, delta)\<close>. A negative component first
  consumes the hold of the order for that symbol, up to its absolute value, and takes
  the rest from available; a positive component is credited to available. When the
  order is no longer open, what is left of its holds returns to available.
\<close>

definition apply_delta :: "string \<Rightarrow> string \<times> decimal \<Rightarrow> account_balances \<Rightarrow> account_balances" where
  "apply_delta ident sd bal =
     (case sd of (s, d) \<Rightarrow>
        if d < 0 then
          (let h = holds bal ident s; c = min h (- d)
           in bal\<lparr>available := (available bal)(s := available bal s - (- d - c)),
                   holds := (holds bal)(ident := (holds bal ident)(s := h - c))\<rparr>)
        else bal\<lparr>available := (available bal)(s := available bal s + d)\<rparr>)"

definition release_holds :: "string \<Rightarrow> account_balances \<Rightarrow> account_balances" where
  "release_holds ident bal =
     bal\<lparr>available := (\<lambda>s. available bal s + holds bal ident s),
         holds := (holds bal)(ident := (\<lambda>_. 0))\<rparr>"

definition order_updated :: "account_balances \<Rightarrow> order \<Rightarrow> amounts \<Rightarrow> account_balances" where
  "order_updated bal ord delta =
     (let bal1 = fold (apply_delta (order_id ord)) delta bal
      in if is_open ord then bal1 else release_holds (order_id ord) bal1)"

subsection \<open>OrderIndex\<close>

text \<open>
  \<^verbatim>\<open>_orders\<close> maps an id to its order object; \<^verbatim>\<open>_open_orders\<close> is a list of references
  to the same objects. A reference is written as the key of the object in \<^verbatim>\<open>_orders\<close>,
  so that a change of an order is seen through both, as in the source.
\<close>

record order_index =
  orders_by_id :: "string \<rightharpoonup> order"
  open_orders :: "string list"
  reindex_every :: nat
  reindex_counter :: nat

definition init_order_index :: order_index where
  "init_order_index =
     \<lparr>orders_by_id = Map.empty, open_orders = [], reindex_every = 50, reindex_counter = 0\<rparr>"

definition add_order :: "order_index \<Rightarrow> order \<Rightarrow> error + order_index" where
  "add_order idx ord =
     (if orders_by_id idx (order_id ord) \<noteq> None then Inl (AssertionError ''duplicate order id'')
      else Inr (idx\<lparr>orders_by_id := (orders_by_id idx)(order_id ord \<mapsto> ord),
                     open_orders := (if is_open ord then open_orders idx @ [order_id ord]
                                     else open_orders idx)\<rparr>))"

definition get_order :: "order_index \<Rightarrow> string \<Rightarrow> order option" where
  "get_order idx ident = orders_by_id idx ident"

text \<open>
  The \<^verbatim>\<open>for\<close> loop of the generator \<^verbatim>\<open>get_open_orders\<close>, together with its consumer.
  \<open>body\<close> is what the consumer does with a yielded order before it asks for the next one:
  it may change that order and a state \<open>w\<close> of its own, or raise. The arguments are the
  references still to visit, the order objects, \<^verbatim>\<open>new_open_orders\<close>, the consumer's
  state, and the orders yielded so far (each as it was when yielded). A reference
  without an object cannot exist in the source; the model steps over it.
\<close>

fun open_orders_loop ::
  "(order \<Rightarrow> 'w \<Rightarrow> error + order \<times> 'w) \<Rightarrow> string list \<Rightarrow> (string \<rightharpoonup> order) \<Rightarrow>
   string list option \<Rightarrow> 'w \<Rightarrow> (string \<times> order) list \<Rightarrow>
   error + (string \<rightharpoonup> order) \<times> string list option \<times> 'w \<times> (string \<times> order) list" where
  "open_orders_loop body [] store new_open_orders w yielded =
     Inr (store, new_open_orders, w, yielded)"
| "open_orders_loop body (r # rest) store new_open_orders w yielded =
     (case store r of
        None \<Rightarrow> open_orders_loop body rest store new_open_orders w yielded
      | Some ord \<Rightarrow>
          if is_open ord then
            (case body ord w of
               Inl e \<Rightarrow> Inl e
             | Inr (ord', w') \<Rightarrow>
                 open_orders_loop body rest (store(r \<mapsto> ord'))
                   (case new_open_orders of
                      None \<Rightarrow> None
                    | Some l \<Rightarrow> if is_open ord' then Some (l @ [r]) else Some l)
                   w' (yielded @ [(r, ord)]))
          else open_orders_loop body rest store new_open_orders w yielded)"

text \<open>
  One full iteration of \<^verbatim>\<open>get_open_orders\<close> by a consumer that runs it to the end.
  An exception of the consumer abandons the generator.
\<close>

definition get_open_orders ::
  "(order \<Rightarrow> 'w \<Rightarrow> error + order \<times> 'w) \<Rightarrow> order_index \<Rightarrow> 'w \<Rightarrow>
   error + order_index \<times> 'w \<times> (string \<times> order) list" where
  "get_open_orders body idx w =
     (let counter = reindex_counter idx + 1;
          new_open_orders = (if counter mod reindex_every idx = 0 then Some [] else None)
      in case open_orders_loop body (open_orders idx) (orders_by_id idx) new_open_orders w [] of
           Inl e \<Rightarrow> Inl e
         | Inr (store, new, w', yielded) \<Rightarrow>
             Inr (idx\<lparr>orders_by_id := store,
                      open_orders := (case new of None \<Rightarrow> open_orders idx | Some l \<Rightarrow> l),
                      reindex_counter := counter\<rparr>,
                  w', yielded))"

subsection \<open>Exchange\<close>

text \<open>
  The calls the bar-event handler makes on its collaborators, in the order it makes
  them. The log is not a field of the class: it records the sequence of effects, which
  the state alone does not show.
\<close>

datatype call =
    Call_set_last_bar bar
  | Call_factory
  | Call_on_bar bar
  | Call_get_balance_updates string
  | Call_not_filled string
  | Call_take_liquidity decimal
  | Call_add_fill string amounts amounts
  | Call_order_updated string amounts
  | Call_push event

text \<open>
  The fields of \<^verbatim>\<open>Exchange\<close> (the dispatcher apart). \<open>'l\<close> is the state of a liquidity
  strategy object; the fee strategy is the function \<^verbatim>\<open>calculate_fees\<close>.
\<close>

record 'l exchange =
  balances :: account_balances
  liquidity_strategy_factory :: "unit \<Rightarrow> 'l"
  liquidity_strategies :: "pair \<rightharpoonup> 'l"
  fee_strategy :: "order \<Rightarrow> amounts \<Rightarrow> amounts"
  orders :: order_index
  bar_event_source :: "pair \<rightharpoonup> event list"
  pairs_info :: "pair \<rightharpoonup> pair_info"
  default_pair_info :: pair_info
  last_bars :: "pair \<rightharpoonup> bar"
  bid_ask_spread :: decimal
  calls :: "call list"

text \<open>
  Methods of objects whose classes are not in the sources: request validation
  (\<open>Some\<close> message when it raises), the fill computation of an order against a bar
  (it returns the balance updates and the order as it leaves it), and the two mutators
  of a liquidity strategy.
\<close>

record 'l collaborators =
  validate :: "order_request \<Rightarrow> pair_info \<Rightarrow> string option"
  get_balance_updates :: "order \<Rightarrow> bar \<Rightarrow> 'l \<Rightarrow> amounts \<times> order"
  on_bar :: "bar \<Rightarrow> 'l \<Rightarrow> 'l"
  take_liquidity :: "decimal \<Rightarrow> 'l \<Rightarrow> 'l"

definition init_exchange ::
  "amounts \<Rightarrow> (unit \<Rightarrow> 'l) \<Rightarrow> (order \<Rightarrow> amounts \<Rightarrow> amounts) \<Rightarrow> pair_info \<Rightarrow> decimal \<Rightarrow> 'l exchange" where
  "init_exchange initial_balances factory fee info spread =
     \<lparr>balances = init_balances initial_balances,
      liquidity_strategy_factory = factory,
      liquidity_strategies = Map.empty,
      fee_strategy = fee,
      orders = init_order_index,
      bar_event_source = Map.empty,
      pairs_info = Map.empty,
      default_pair_info = info,
      last_bars = Map.empty,
      bid_ask_spread = spread,
      calls = []\<rparr>"

definition log_call :: "call \<Rightarrow> 'l exchange \<Rightarrow> 'l exchange" where
  "log_call c ex = ex\<lparr>calls := calls ex @ [c]\<rparr>"

definition get_pair_info :: "'l exchange \<Rightarrow> pair \<Rightarrow> pair_info" where
  "get_pair_info ex p = (case pairs_info ex p of None \<Rightarrow> default_pair_info ex | Some ret \<Rightarrow> ret)"

definition set_pair_info :: "'l exchange \<Rightarrow> pair \<Rightarrow> pair_info \<Rightarrow> 'l exchange" where
  "set_pair_info ex p info = ex\<lparr>pairs_info := (pairs_info ex)(p \<mapsto> info)\<rparr>"

definition subscribe_to_bar_events :: "'l exchange \<Rightarrow> pair \<Rightarrow> 'l exchange" where
  "subscribe_to_bar_events ex p =
     (case bar_event_source ex p of
        None \<Rightarrow> ex\<lparr>bar_event_source := (bar_event_source ex)(p \<mapsto> [])\<rparr>
      | Some _ \<Rightarrow> ex)"

text \<open>\<^verbatim>\<open>last_bar.close if last_bar else None\<close>: a bar object is always true.\<close>

definition get_last_price :: "'l exchange \<Rightarrow> pair \<Rightarrow> decimal option" where
  "get_last_price ex p =
     (case last_bars ex p of None \<Rightarrow> None | Some last_bar \<Rightarrow> Some (bar_close last_bar))"

definition get_bid_ask :: "'l exchange \<Rightarrow> pair \<Rightarrow> decimal option \<times> decimal option" where
  "get_bid_ask ex p =
     (case get_last_price ex p of
        None \<Rightarrow> (None, None)
      | Some last_price \<Rightarrow>
          if last_price \<noteq> 0 then
            (let info = get_pair_info ex p;
                 half_spread = truncate_decimal
                   ((last_price * bid_ask_spread ex / 100) / 2) (quote_precision info)
             in (Some (last_price - half_spread), Some (last_price + half_spread)))
          else (None, None))"

definition round_balance_updates :: "'l exchange \<Rightarrow> pair \<Rightarrow> amounts \<Rightarrow> amounts" where
  "round_balance_updates ex p balance_updates =
     (let info = get_pair_info ex p;
          ret1 = (case map_of balance_updates (base_symbol p) of
                    None \<Rightarrow> balance_updates
                  | Some base_amount \<Rightarrow>
                      if base_amount \<noteq> 0 then
                        AList.update (base_symbol p)
                          (truncate_decimal base_amount (base_precision info)) balance_updates
                      else balance_updates);
          ret2 = (case map_of ret1 (quote_symbol p) of
                    None \<Rightarrow> ret1
                  | Some quote_amount \<Rightarrow>
                      if quote_amount \<noteq> 0 then
                        AList.update (quote_symbol p)
                          (round_decimal quote_amount (quote_precision info) ROUND_HALF_EVEN) ret1
                      else ret1)
      in remove_empty_amounts ret2)"

text \<open>The body of the loop of \<^verbatim>\<open>_round_fees\<close>, for one key of the copy.\<close>

definition round_fee :: "(string \<times> nat) list \<Rightarrow> string \<Rightarrow> amounts \<Rightarrow> amounts" where
  "round_fee precisions symbol ret =
     (case map_of ret symbol of
        None \<Rightarrow> ret
      | Some a \<Rightarrow>
          if a \<noteq> 0 then
            (case map_of precisions symbol of
               None \<Rightarrow> ret
             | Some precision \<Rightarrow> AList.update symbol (round_decimal a precision ROUND_UP) ret)
          else ret)"

definition round_fees :: "'l exchange \<Rightarrow> pair \<Rightarrow> amounts \<Rightarrow> amounts" where
  "round_fees ex p fs =
     (let info = get_pair_info ex p;
          precisions = AList.update (quote_symbol p) (quote_precision info)
                         [(base_symbol p, base_precision info)]
      in remove_empty_amounts (fold (round_fee precisions) (map fst fs) fs))"

definition assert_has_value :: "amounts \<Rightarrow> string \<Rightarrow> decimal \<Rightarrow> error option" where
  "assert_has_value balance_updates symbol sign =
     (case map_of balance_updates symbol of
        None \<Rightarrow> Some (AssertionError (symbol @ '' is missing''))
      | Some v \<Rightarrow>
          if v = 0 then Some (AssertionError (symbol @ '' is zero''))
          else if get_sign v \<noteq> sign then Some (AssertionError (symbol @ '' sign is wrong''))
          else None)"

text \<open>The local function \<^verbatim>\<open>order_not_filled\<close> of \<^verbatim>\<open>_process_order\<close>.\<close>

definition order_not_filled :: "order \<Rightarrow> 'l exchange \<Rightarrow> order \<times> 'l exchange" where
  "order_not_filled ord ex =
     (let ord' = not_filled ord;
          ex1 = log_call (Call_not_filled (order_id ord')) ex
      in if \<not> is_open ord' then
           (ord', log_call (Call_order_updated (order_id ord') [])
                     (ex1\<lparr>balances := order_updated (balances ex1) ord' []\<rparr>))
         else (ord', ex1))"

text \<open>The loop "Check if we're short on any balance", which stops at the first short symbol.\<close>

fun balances_short :: "account_balances \<Rightarrow> string \<Rightarrow> amounts \<Rightarrow> bool" where
  "balances_short bal ident [] = False"
| "balances_short bal ident ((symbol, balance_update) # rest) =
     (let available_balance = get_available_balance bal symbol
                              + get_balance_on_hold_for_order bal ident symbol;
          final_balance = available_balance + balance_update
      in if final_balance < 0 then True else balances_short bal ident rest)"

text \<open>
  \<^verbatim>\<open>_process_order\<close>. The order object is changed in place in the source; here the
  changed order is returned, with the exchange and the liquidity strategy.
\<close>

definition process_order ::
  "'l collaborators \<Rightarrow> 'l exchange \<Rightarrow> order \<Rightarrow> bar \<Rightarrow> 'l \<Rightarrow> error + order \<times> 'l exchange \<times> 'l" where
  "process_order cs ex ord0 b liq =
     (let prev_state = state ord0;
          (balance_updates, ord) = get_balance_updates cs ord0 b liq;
          ex1 = log_call (Call_get_balance_updates (order_id ord)) ex
      in if state ord \<noteq> prev_state then
           Inl (AssertionError ''The order state should not change inside get_balance_updates'')
         else if balance_updates = [] then
           (case order_not_filled ord ex1 of (ord', ex') \<Rightarrow> Inr (ord', ex', liq))
         else
           (let base_sign = get_base_sign_for_operation (operation ord)
            in case assert_has_value balance_updates (base_symbol (order_pair ord)) base_sign of
                 Some e \<Rightarrow> Inl e
               | None \<Rightarrow>
              (case assert_has_value balance_updates (quote_symbol (order_pair ord)) (- base_sign) of
                 Some e \<Rightarrow> Inl e
               | None \<Rightarrow>
              (let balance_updates = round_balance_updates ex1 (order_pair ord) balance_updates
               in if map_of balance_updates (base_symbol (order_pair ord)) = None
                     \<or> map_of balance_updates (quote_symbol (order_pair ord)) = None then
                    (case order_not_filled ord ex1 of (ord', ex') \<Rightarrow> Inr (ord', ex', liq))
                  else
                    (let fs = fee_strategy ex1 ord balance_updates;
                         fs = round_fees ex1 (order_pair ord) fs;
                         final_updates = add_amounts balance_updates fs;
                         final_updates = remove_empty_amounts final_updates
                     in if \<not> balances_short (balances ex1) (order_id ord) final_updates then
                          (case map_of balance_updates (base_symbol (bar_pair b)) of
                             None \<Rightarrow> Inl (KeyError (base_symbol (bar_pair b)))
                           | Some base_amount \<Rightarrow>
                               (let liq' = take_liquidity cs \<bar>base_amount\<bar> liq;
                                    ex2 = log_call (Call_take_liquidity \<bar>base_amount\<bar>) ex1
                                in case add_fill ord balance_updates fs of
                                     Inl e \<Rightarrow> Inl e
                                   | Inr ord' \<Rightarrow>
                                       (let ex3 = log_call (Call_add_fill (order_id ord') balance_updates fs) ex2;
                                            ex4 = log_call (Call_order_updated (order_id ord') final_updates)
                                                    (ex3\<lparr>balances := order_updated (balances ex3) ord' final_updates\<rparr>)
                                        in Inr (ord', ex4, liq'))))
                        else (case order_not_filled ord ex1 of (ord', ex') \<Rightarrow> Inr (ord', ex', liq)))))))"

text \<open>
  \<^verbatim>\<open>_process_orders\<close>. A strategy found in \<^verbatim>\<open>_liquidity_strategies\<close> is the object of
  the dictionary, so what the loop does to it stays there; one made by the factory is
  a local object, which nothing keeps when the function returns. The loop is the
  generator of the order index, filtered on the pair of the bar.
\<close>

definition process_orders :: "'l collaborators \<Rightarrow> 'l exchange \<Rightarrow> bar \<Rightarrow> error + 'l exchange" where
  "process_orders cs ex b =
     (let found = liquidity_strategies ex (bar_pair b);
          (liquidity_strategy, ex1) =
             (case found of
                None \<Rightarrow> (liquidity_strategy_factory ex (), log_call Call_factory ex)
              | Some l \<Rightarrow> (l, ex));
          liquidity_strategy = on_bar cs b liquidity_strategy;
          ex2 = log_call (Call_on_bar b) ex1
      in case get_open_orders
                (\<lambda>ord (x, l).
                   if order_pair ord = bar_pair b then
                     (case process_order cs x ord b l of
                        Inl e \<Rightarrow> Inl e
                      | Inr (ord', x', l') \<Rightarrow> Inr (ord', (x', l')))
                   else Inr (ord, (x, l)))
                (orders ex2) (ex2, liquidity_strategy) of
           Inl e \<Rightarrow> Inl e
         | Inr (idx, (ex3, l), yielded) \<Rightarrow>
             Inr (ex3\<lparr>orders := idx,
                      liquidity_strategies :=
                        (case found of
                           None \<Rightarrow> liquidity_strategies ex3
                         | Some _ \<Rightarrow> (liquidity_strategies ex3)(bar_pair b \<mapsto> l))\<rparr>))"

text \<open>\<^verbatim>\<open>_on_bar_event\<close>: an event source object is always true, so the test is for presence.\<close>

definition on_bar_event :: "'l collaborators \<Rightarrow> 'l exchange \<Rightarrow> event \<Rightarrow> error + 'l exchange" where
  "on_bar_event cs ex ev =
     (case ev of
        OtherEvent s \<Rightarrow> Inl (AssertionError (s @ '' is not an instance of bar.BarEvent''))
      | BarEvent b \<Rightarrow>
          (let ex1 = log_call (Call_set_last_bar b) (ex\<lparr>last_bars := (last_bars ex)(bar_pair b \<mapsto> b)\<rparr>)
           in case process_orders cs ex1 b of
                Inl e \<Rightarrow> Inl e
              | Inr ex2 \<Rightarrow>
                  (case bar_event_source ex2 (bar_pair b) of
                     None \<Rightarrow> Inr ex2
                   | Some queue \<Rightarrow>
                       Inr (log_call (Call_push ev)
                              (ex2\<lparr>bar_event_source := (bar_event_source ex2)(bar_pair b \<mapsto> queue @ [ev])\<rparr>)))))"

fun check_available_balance :: "account_balances \<Rightarrow> amounts \<Rightarrow> error option" where
  "check_available_balance bal [] = None"
| "check_available_balance bal ((symbol, required) # rest) =
     (if \<not> 0 < required then Some (AssertionError (''Invalid required balance for '' @ symbol))
      else (let available_balance = get_available_balance bal symbol
            in if available_balance < required then
                 Some (Error_not_enough symbol required available_balance)
               else check_available_balance bal rest))"

definition estimate_required_balances :: "'l exchange \<Rightarrow> order_request \<Rightarrow> amounts" where
  "estimate_required_balances ex req =
     (let base_sign = get_base_sign_for_operation (req_operation req);
          estimated_balance_updates = [(base_symbol (req_pair req), req_amount req * base_sign)];
          estimated_fill_price = get_estimated_fill_price req;
          estimated_fill_price = (if \<not> truthy estimated_fill_price
                                  then get_last_price ex (req_pair req)
                                  else estimated_fill_price);
          estimated_balance_updates =
            (case estimated_fill_price of
               None \<Rightarrow> estimated_balance_updates
             | Some price \<Rightarrow>
                 if price \<noteq> 0 then
                   AList.update (quote_symbol (req_pair req))
                     (req_amount req * price * - base_sign) estimated_balance_updates
                 else estimated_balance_updates);
          estimated_balance_updates =
            round_balance_updates ex (req_pair req) estimated_balance_updates;
          fs = (if length estimated_balance_updates = 2 then
                  round_fees ex (req_pair req)
                    (fee_strategy ex (request_create_order req ''temporary'') estimated_balance_updates)
                else []);
          estimated_balance_updates = add_amounts estimated_balance_updates fs
      in map (\<lambda>(symbol, a). (symbol, - a)) (filter (\<lambda>(symbol, a). a < 0) estimated_balance_updates))"

text \<open>
  \<^verbatim>\<open>create_order\<close>; \<open>uid\<close> is the value of \<^verbatim>\<open>uuid.uuid4().hex\<close>. The result is the
  outcome (the id of the created order, or the exception) and the exchange afterwards.
\<close>

definition create_order ::
  "'l collaborators \<Rightarrow> 'l exchange \<Rightarrow> order_request \<Rightarrow> string \<Rightarrow> (error + string) \<times> 'l exchange" where
  "create_order cs ex req uid =
     (let info = get_pair_info ex (req_pair req)
      in case validate cs req info of
           Some msg \<Rightarrow> (Inl (Error_validation msg), ex)
         | None \<Rightarrow>
             (let required_balances = estimate_required_balances ex req
              in case check_available_balance (balances ex) required_balances of
                   Some e \<Rightarrow> (Inl e, ex)
                 | None \<Rightarrow>
                     (let ord = request_create_order req uid
                      in case add_order (orders ex) ord of
                           Inl e \<Rightarrow> (Inl e, ex)
                         | Inr idx \<Rightarrow>
                             (let ex1 = ex\<lparr>orders := idx\<rparr>
                              in case order_accepted (balances ex1) ord required_balances of
                                   Inl e \<Rightarrow> (Inl e, ex1)
                                 | Inr bal \<Rightarrow> (Inr (order_id ord), ex1\<lparr>balances := bal\<rparr>)))))"

text \<open>\<^verbatim>\<open>cancel_order\<close>: the order object of the index is changed in place.\<close>

definition cancel_order :: "'l exchange \<Rightarrow> string \<Rightarrow> (error + string) \<times> 'l exchange" where
  "cancel_order ex ident =
     (case get_order (orders ex) ident of
        None \<Rightarrow> (Inl Error_order_not_found, ex)
      | Some ord \<Rightarrow>
          if \<not> is_open ord then (Inl (Error_not_open ident (state ord)), ex)
          else
            (let ord' = cancel ord;
                 idx = (orders ex)\<lparr>orders_by_id := (orders_by_id (orders ex))(ident \<mapsto> ord')\<rparr>;
                 ex1 = ex\<lparr>orders := idx\<rparr>
             in (Inr ident, ex1\<lparr>balances := order_updated (balances ex1) ord' []\<rparr>)))"

subsection \<open>A concrete exchange for the examples\<close>

text \<open>
  The pair BTC/USDT with precisions 8 and 2 (as in \<^verbatim>\<open>samples/backtesting_bbands.py\<close>),
  and simple collaborators: a liquidity strategy whose state is the number of bars the
  object has seen and the base amount left in the current bar (a quarter of the bar's
  volume); orders that fill at the bar's open, as far as the liquidity goes; a fee of
  one percent of the quote amount, charged in the quote symbol; requests that are
  valid when their amount is positive.
\<close>

definition btc_usdt :: pair where
  "btc_usdt = \<lparr>base_symbol = ''BTC'', quote_symbol = ''USDT''\<rparr>"

type_synonym example_liquidity = "nat \<times> decimal"

definition example_fill :: "order \<Rightarrow> bar \<Rightarrow> example_liquidity \<Rightarrow> amounts \<times> order" where
  "example_fill ord b liq =
     (let fill = min (amount ord - amount_filled ord) (snd liq);
          sign = get_base_sign_for_operation (operation ord)
      in if fill \<le> 0 then ([], ord)
         else ([(base_symbol (order_pair ord), fill * sign),
                (quote_symbol (order_pair ord), fill * bar_open b * - sign)], ord))"

definition example_collaborators :: "example_liquidity collaborators" where
  "example_collaborators =
     \<lparr>validate = (\<lambda>req info. if req_amount req \<le> 0 then Some ''amount'' else None),
      get_balance_updates = example_fill,
      on_bar = (\<lambda>b liq. (Suc (fst liq), bar_volume b / 4)),
      take_liquidity = (\<lambda>x liq. (fst liq, snd liq - x))\<rparr>"

definition example_fee :: "order \<Rightarrow> amounts \<Rightarrow> amounts" where
  "example_fee ord balance_updates =
     [(quote_symbol (order_pair ord),
       - \<bar>get_amount balance_updates (quote_symbol (order_pair ord))\<bar> / 100)]"

definition example_exchange :: "example_liquidity exchange" where
  "example_exchange =
     set_pair_info
       (init_exchange [(''USDT'', 10000)] (\<lambda>_. (0, 0)) example_fee
          \<lparr>base_precision = 0, quote_precision = 2\<rparr> (1 / 2))
       btc_usdt \<lparr>base_precision = 8, quote_precision = 2\<rparr>"

definition example_bar :: "decimal \<Rightarrow> decimal \<Rightarrow> bar" where
  "example_bar opening closing =
     \<lparr>bar_pair = btc_usdt, bar_open = opening, bar_high = max opening closing,
      bar_low = min opening closing, bar_close = closing, bar_volume = 1000\<rparr>"

definition example_request :: "order_operation \<Rightarrow> decimal \<Rightarrow> order_kind \<Rightarrow> order_request" where
  "example_request op a k = \<lparr>req_operation = op, req_pair = btc_usdt, req_amount = a, req_kind = k\<rparr>"

definition example_exchange_seen :: "bar \<Rightarrow> example_liquidity exchange" where
  "example_exchange_seen b =
     example_exchange\<lparr>last_bars := (last_bars example_exchange)(bar_pair b \<mapsto> b)\<rparr>"

text \<open>
  An accepted market order to buy 10 BTC, and the exchange that holds 1010 USDT for it
  (1000 at the last close of 100, and the fee).
\<close>

definition example_order :: order where
  "example_order = request_create_order (example_request BUY 10 Market) ''o1''"

definition example_exchange_holding :: "example_liquidity exchange" where
  "example_exchange_holding =
     snd (create_order example_collaborators (example_exchange_seen (example_bar 100 100))
            (example_request BUY 10 Market) ''o1'')"

text \<open>A limit order for less than the base precision can express.\<close>

definition tiny_order :: order where
  "tiny_order = request_create_order (example_request BUY (4 / 10 ^ 9) (Limit 100)) ''o2''"

text \<open>The exchange holding the order \<open>o1\<close>, with a subscriber to the bars of BTC/USDT.\<close>

definition example_exchange_subscribed :: "example_liquidity exchange" where
  "example_exchange_subscribed = subscribe_to_bar_events example_exchange_holding btc_usdt"

text \<open>An order reference whose order is open in a given assignment of orders to references.\<close>

abbreviation open_in :: "(string \<rightharpoonup> order) \<Rightarrow> string \<Rightarrow> bool" where
  "open_in store r \<equiv> (case store r of None \<Rightarrow> False | Some ord \<Rightarrow> is_open ord)"

text \<open>
  An index on its 49th iteration: \<open>o1\<close> and \<open>o3\<close> are open, \<open>o2\<close> was cancelled since it
  was added and is still in the list.
\<close>

definition example_index :: order_index where
  "example_index =
     \<lparr>orders_by_id = [''o1'' \<mapsto> example_order,
                       ''o2'' \<mapsto> cancel (example_order\<lparr>order_id := ''o2''\<rparr>),
                       ''o3'' \<mapsto> example_order\<lparr>order_id := ''o3''\<rparr>],
      open_orders = [''o1'', ''o2'', ''o3''],
      reindex_every = 50, reindex_counter = 49\<rparr>"

text \<open>A consumer that cancels \<open>o1\<close> when it gets it, and notes the ids it was given.\<close>

definition example_consumer :: "order \<Rightarrow> string list \<Rightarrow> error + order \<times> string list" where
  "example_consumer ord w =
     Inr (if order_id ord = ''o1'' then cancel ord else ord, w @ [order_id ord])"

section \<open>Auxiliary facts\<close>

subsection \<open>Floor and ceiling of rational numerals\<close>

lemma floor_rat_divide_numeral [simp]:
  "\<lfloor>numeral a / numeral b :: rat\<rfloor> = numeral a div numeral b"
  using floor_divide_of_int_eq [of "numeral a" "numeral b", where ?'a = rat] by simp

lemma floor_rat_minus_divide_numeral [simp]:
  "\<lfloor>- (numeral a / numeral b) :: rat\<rfloor> = - numeral a div numeral b"
  using floor_divide_of_int_eq [of "- numeral a" "numeral b", where ?'a = rat] by simp

lemma ceiling_rat_divide_numeral [simp]:
  "\<lceil>numeral a / numeral b :: rat\<rceil> = - (- numeral a div numeral b)"
  by (simp add: ceiling_def)

lemma ceiling_rat_minus_divide_numeral [simp]:
  "\<lceil>- (numeral a / numeral b) :: rat\<rceil> = - (numeral a div numeral b)"
  by (simp add: ceiling_def)

lemmas rounding_defs = truncate_decimal_def round_decimal_def round_to_integral_def Let_def

subsection \<open>Dictionaries\<close>

lemma map_of_remove_empty_amounts:
  "distinct (map fst d) \<Longrightarrow>
   map_of (remove_empty_amounts d) s =
     (case map_of d s of None \<Rightarrow> None | Some v \<Rightarrow> if v = 0 then None else Some v)"
proof (induction d)
  case Nil
  then show ?case by (simp add: remove_empty_amounts_def)
next
  case (Cons kv d)
  obtain k v where kv: "kv = (k, v)" by (cases kv)
  from Cons.prems kv have k: "k \<notin> fst ` set d" and d: "distinct (map fst d)" by auto
  from k have none: "map_of d k = None" by (simp add: map_of_eq_None_iff)
  from Cons.IH [OF d] have IH: "map_of (filter (\<lambda>(s, v). v \<noteq> 0) d) s =
     (case map_of d s of None \<Rightarrow> None | Some v \<Rightarrow> if v = 0 then None else Some v)"
    by (simp add: remove_empty_amounts_def)
  show ?case
    using IH none by (auto simp: remove_empty_amounts_def kv split: option.splits)
qed

lemma distinct_remove_empty_amounts:
  "distinct (map fst d) \<Longrightarrow> distinct (map fst (remove_empty_amounts d))"
  by (simp add: remove_empty_amounts_def distinct_map_filter)

lemma map_of_round_fee:
  "map_of (round_fee precisions k ret) s =
     (if s = k then
        (case map_of ret k of
           None \<Rightarrow> None
         | Some a \<Rightarrow> (case map_of precisions k of
                        None \<Rightarrow> Some a
                      | Some precision \<Rightarrow> if a = 0 then Some a else Some (round_decimal a precision ROUND_UP)))
      else map_of ret s)"
  by (auto simp: round_fee_def update_conv' split: option.splits)

lemma map_of_fold_round_fee:
  "distinct ks \<Longrightarrow>
   map_of (fold (round_fee precisions) ks ret) s =
     (if s \<in> set ks then
        (case map_of ret s of
           None \<Rightarrow> None
         | Some a \<Rightarrow> (case map_of precisions s of
                        None \<Rightarrow> Some a
                      | Some precision \<Rightarrow> if a = 0 then Some a else Some (round_decimal a precision ROUND_UP)))
      else map_of ret s)"
proof (induction ks arbitrary: ret)
  case Nil
  then show ?case by simp
next
  case (Cons k ks)
  then have IH: "\<And>r. map_of (fold (round_fee precisions) ks r) s =
     (if s \<in> set ks then
        (case map_of r s of
           None \<Rightarrow> None
         | Some a \<Rightarrow> (case map_of precisions s of
                        None \<Rightarrow> Some a
                      | Some precision \<Rightarrow> if a = 0 then Some a else Some (round_decimal a precision ROUND_UP)))
      else map_of r s)"
    and k: "k \<notin> set ks" by auto
  show ?case
    using k by (simp add: IH map_of_round_fee) (auto split: option.splits)
qed

lemma keys_round_fee: "map fst (round_fee precisions k ret) = map fst ret"
proof -
  have "\<And>v. map_of ret k \<noteq> None \<Longrightarrow> map fst (AList.update k v ret) = map fst ret"
    by (simp add: update_keys map_of_eq_None_iff)
  then show ?thesis
    by (auto simp: round_fee_def split: option.splits)
qed

lemma keys_fold_round_fee: "map fst (fold (round_fee precisions) ks ret) = map fst ret"
  by (induction ks arbitrary: ret) (simp_all add: keys_round_fee)


lemma round_zero [simp]: "round_decimal 0 n mode = 0" "truncate_decimal 0 n = 0"
  by (cases mode; simp add: rounding_defs)+

lemma map_of_round_balance_updates:
  assumes neq: "base_symbol p \<noteq> quote_symbol p" and dist: "distinct (map fst u)"
  shows "map_of (round_balance_updates ex p u) s =
     (case map_of u s of
        None \<Rightarrow> None
      | Some v \<Rightarrow>
          (let v' = (if s = base_symbol p then truncate_decimal v (base_precision (get_pair_info ex p))
                     else if s = quote_symbol p then
                       round_decimal v (quote_precision (get_pair_info ex p)) ROUND_HALF_EVEN
                     else v)
           in if v' = 0 then None else Some v'))"
proof -
  define info where "info = get_pair_info ex p"
  define ret1 where "ret1 = (case map_of u (base_symbol p) of
                    None \<Rightarrow> u
                  | Some base_amount \<Rightarrow>
                      if base_amount \<noteq> 0 then
                        AList.update (base_symbol p)
                          (truncate_decimal base_amount (base_precision info)) u
                      else u)"
  define ret2 where "ret2 = (case map_of ret1 (quote_symbol p) of
                    None \<Rightarrow> ret1
                  | Some quote_amount \<Rightarrow>
                      if quote_amount \<noteq> 0 then
                        AList.update (quote_symbol p)
                          (round_decimal quote_amount (quote_precision info) ROUND_HALF_EVEN) ret1
                      else ret1)"
  have r: "round_balance_updates ex p u = remove_empty_amounts ret2"
    by (simp only: round_balance_updates_def Let_def ret2_def ret1_def info_def)
  have d1: "distinct (map fst ret1)"
    using dist by (simp add: ret1_def distinct_update split: option.splits)
  have d2: "distinct (map fst ret2)"
    using d1 by (simp add: ret2_def distinct_update split: option.splits)
  have m1: "map_of ret1 s = (case map_of u s of None \<Rightarrow> None
              | Some v \<Rightarrow> Some (if s = base_symbol p then truncate_decimal v (base_precision info) else v))"
    by (cases "s = base_symbol p") (auto simp: ret1_def update_conv' split: option.splits)
  have m1q: "map_of ret1 (quote_symbol p) = map_of u (quote_symbol p)"
    using neq by (auto simp: ret1_def update_conv' split: option.splits)
  have m2: "map_of ret2 s = (case map_of ret1 s of None \<Rightarrow> None
              | Some v \<Rightarrow> Some (if s = quote_symbol p then round_decimal v (quote_precision info) ROUND_HALF_EVEN else v))"
    by (cases "s = quote_symbol p") (auto simp: ret2_def update_conv' split: option.splits)
  show ?thesis
    unfolding r map_of_remove_empty_amounts [OF d2] m2 m1 info_def [symmetric]
    using neq by (cases "map_of u s") (simp_all add: Let_def)
qed

lemma map_of_precisions:
  "map_of (AList.update q qp [(b, bp)]) s = (if s = q then Some qp else if s = b then Some bp else None)"
  by (simp add: update_conv')

lemma map_of_round_fees:
  assumes neq: "base_symbol p \<noteq> quote_symbol p" and dist: "distinct (map fst f)"
  shows "map_of (round_fees ex p f) s =
     (case map_of f s of
        None \<Rightarrow> None
      | Some a \<Rightarrow>
          (let a' = (if s = base_symbol p then round_decimal a (base_precision (get_pair_info ex p)) ROUND_UP
                     else if s = quote_symbol p then
                       round_decimal a (quote_precision (get_pair_info ex p)) ROUND_UP
                     else a)
           in if a' = 0 then None else Some a'))"
proof -
  define info where "info = get_pair_info ex p"
  define precisions where "precisions = AList.update (quote_symbol p) (quote_precision info)
                         [(base_symbol p, base_precision info)]"
  define ret where "ret = fold (round_fee precisions) (map fst f) f"
  have r: "round_fees ex p f = remove_empty_amounts ret"
    by (simp only: round_fees_def Let_def ret_def precisions_def info_def)
  have d: "distinct (map fst ret)"
    using dist by (simp add: ret_def keys_fold_round_fee)
  have keys: "s \<in> set (map fst f) \<longleftrightarrow> map_of f s \<noteq> None"
    by (simp add: map_of_eq_None_iff)
  have m: "map_of ret s = (case map_of f s of None \<Rightarrow> None
         | Some a \<Rightarrow> (case map_of precisions s of
                        None \<Rightarrow> Some a
                      | Some precision \<Rightarrow> if a = 0 then Some a else Some (round_decimal a precision ROUND_UP)))"
    unfolding ret_def map_of_fold_round_fee [OF dist] keys
    by (cases "map_of f s") simp_all
  show ?thesis
    unfolding r map_of_remove_empty_amounts [OF d] m precisions_def map_of_precisions info_def [symmetric]
    using neq by (cases "map_of f s") (auto simp: Let_def)
qed

subsection \<open>Fields the rounding does not read\<close>

lemma get_pair_info_last_bars [simp]: "get_pair_info (ex\<lparr>last_bars := m\<rparr>) p = get_pair_info ex p"
  by (simp add: get_pair_info_def split: option.splits)

lemma round_balance_updates_last_bars [simp]:
  "round_balance_updates (ex\<lparr>last_bars := m\<rparr>) p u = round_balance_updates ex p u"
  by (simp add: round_balance_updates_def)

lemma round_fees_last_bars [simp]:
  "round_fees (ex\<lparr>last_bars := m\<rparr>) p f = round_fees ex p f"
  by (simp add: round_fees_def)

subsection \<open>Unfolding the example\<close>

lemmas ex_defs = example_exchange_def init_exchange_def set_pair_info_def btc_usdt_def
  example_bar_def example_request_def example_collaborators_def example_fee_def example_fill_def
  init_balances_def init_order_index_def example_exchange_seen_def

subsection \<open>The matching of one order\<close>

lemma get_pair_info_log_call [simp]: "get_pair_info (log_call c ex) p = get_pair_info ex p"
  by (simp add: get_pair_info_def log_call_def split: option.splits)

lemma round_balance_updates_log_call [simp]:
  "round_balance_updates (log_call c ex) p u = round_balance_updates ex p u"
  by (simp add: round_balance_updates_def)

lemma round_fees_log_call [simp]: "round_fees (log_call c ex) p f = round_fees ex p f"
  by (simp add: round_fees_def)

lemma fields_log_call [simp]:
  "balances (log_call c ex) = balances ex"
  "fee_strategy (log_call c ex) = fee_strategy ex"
  "orders (log_call c ex) = orders ex"
  "liquidity_strategies (log_call c ex) = liquidity_strategies ex"
  "liquidity_strategy_factory (log_call c ex) = liquidity_strategy_factory ex"
  "bar_event_source (log_call c ex) = bar_event_source ex"
  "last_bars (log_call c ex) = last_bars ex"
  "pairs_info (log_call c ex) = pairs_info ex"
  "default_pair_info (log_call c ex) = default_pair_info ex"
  "bid_ask_spread (log_call c ex) = bid_ask_spread ex"
  "calls (log_call c ex) = calls ex @ [c]"
  by (simp_all add: log_call_def)

lemma get_pair_info_calls [simp]: "get_pair_info (ex\<lparr>calls := c\<rparr>) p = get_pair_info ex p"
  by (simp add: get_pair_info_def split: option.splits)

lemma round_balance_updates_calls [simp]:
  "round_balance_updates (ex\<lparr>calls := c\<rparr>) p u = round_balance_updates ex p u"
  by (simp add: round_balance_updates_def)

lemma round_fees_calls [simp]: "round_fees (ex\<lparr>calls := c\<rparr>) p f = round_fees ex p f"
  by (simp add: round_fees_def)

lemma not_filled_fields [simp]:
  "order_id (not_filled ord) = order_id ord"
  "amount_filled (not_filled ord) = amount_filled ord"
  "fees (not_filled ord) = fees ord"
  "order_pair (not_filled ord) = order_pair ord"
  "amount (not_filled ord) = amount ord"
  by (simp_all add: not_filled_def cancel_def split: order_kind.splits)

lemma order_not_filled_eq:
  "order_not_filled ord ex =
     (not_filled ord,
      ex\<lparr>balances := (if is_open (not_filled ord) then balances ex
                        else order_updated (balances ex) (not_filled ord) []),
         calls := calls ex @ Call_not_filled (order_id ord)
                    # (if is_open (not_filled ord) then []
                       else [Call_order_updated (order_id ord) []])\<rparr>)"
  by (simp add: order_not_filled_def Let_def log_call_def)

lemma assert_has_value_Nil: "assert_has_value [] s sign \<noteq> None"
  by (simp add: assert_has_value_def)

lemma process_order_checked:
  assumes gbu: "get_balance_updates cs ord0 b liq = (u0, ord)"
      and st: "state ord = state ord0"
      and a1: "assert_has_value u0 (base_symbol (order_pair ord))
                 (get_base_sign_for_operation (operation ord)) = None"
      and a2: "assert_has_value u0 (quote_symbol (order_pair ord))
                 (- get_base_sign_for_operation (operation ord)) = None"
  shows "process_order cs ex ord0 b liq =
     (let ex1 = log_call (Call_get_balance_updates (order_id ord)) ex;
          u = round_balance_updates ex (order_pair ord) u0
      in if map_of u (base_symbol (order_pair ord)) = None
            \<or> map_of u (quote_symbol (order_pair ord)) = None then
           Inr (fst (order_not_filled ord ex1), snd (order_not_filled ord ex1), liq)
         else
           (let f = round_fees ex (order_pair ord) (fee_strategy ex ord u);
                final = remove_empty_amounts (add_amounts u f)
            in if balances_short (balances ex) (order_id ord) final then
                 Inr (fst (order_not_filled ord ex1), snd (order_not_filled ord ex1), liq)
               else
                 (case map_of u (base_symbol (bar_pair b)) of
                    None \<Rightarrow> Inl (KeyError (base_symbol (bar_pair b)))
                  | Some base_amount \<Rightarrow>
                      (case add_fill ord u f of
                         Inl e \<Rightarrow> Inl e
                       | Inr ord' \<Rightarrow>
                           Inr (ord',
                                ex\<lparr>balances := order_updated (balances ex) ord' final,
                                   calls := calls ex @
                                     [Call_get_balance_updates (order_id ord),
                                      Call_take_liquidity \<bar>base_amount\<bar>,
                                      Call_add_fill (order_id ord') u f,
                                      Call_order_updated (order_id ord') final]\<rparr>,
                                take_liquidity cs \<bar>base_amount\<bar> liq)))))"
proof -
  have ne: "u0 \<noteq> []" using a1 by (auto simp: assert_has_value_def)
  show ?thesis
    unfolding process_order_def
    using gbu st a1 a2 ne
    by (simp add: Let_def log_call_def order_not_filled_eq split: prod.splits option.splits sum.splits)
qed

lemma balances_short_iff:
  "balances_short bal ident final \<longleftrightarrow>
     (\<exists>sv \<in> set final. available bal (fst sv) + holds bal ident (fst sv) + snd sv < 0)"
  by (induction final)
     (auto simp: Let_def get_available_balance_def get_balance_on_hold_for_order_def)

lemma get_pair_info_example [simp]:
  "get_pair_info (example_exchange_seen b) btc_usdt = \<lparr>base_precision = 8, quote_precision = 2\<rparr>"
  by (simp add: get_pair_info_def ex_defs)

lemma example_estimate:
  "estimate_required_balances (example_exchange_seen (example_bar 100 100))
     (example_request BUY 10 Market) = [(''USDT'', 1010)]"
proof -
  have p: "req_pair (example_request BUY 10 Market) = btc_usdt"
    by (simp add: example_request_def)
  have lp: "get_last_price (example_exchange_seen (example_bar 100 100)) btc_usdt = Some 100"
    by (simp add: get_last_price_def ex_defs)
  have r: "round_balance_updates (example_exchange_seen (example_bar 100 100)) btc_usdt
             [(''BTC'', 10), (''USDT'', - 1000)] = [(''BTC'', 10), (''USDT'', - 1000)]"
    by (simp add: round_balance_updates_def rounding_defs remove_empty_amounts_def btc_usdt_def)
  have fe: "fee_strategy (example_exchange_seen (example_bar 100 100)) = example_fee"
    by (simp add: ex_defs)
  have f: "round_fees (example_exchange_seen (example_bar 100 100)) btc_usdt [(''USDT'', - 10)]
            = [(''USDT'', - 10)]"
    by (simp add: round_fees_def round_fee_def rounding_defs remove_empty_amounts_def btc_usdt_def)
  show ?thesis
    unfolding estimate_required_balances_def p
    by (simp add: Let_def lp get_estimated_fill_price_def truthy_def get_base_sign_for_operation_def
        example_request_def btc_usdt_def [symmetric])
       (simp add: btc_usdt_def r fe example_fee_def request_create_order_def get_amount_def f
          add_amounts_def r [unfolded btc_usdt_def] f [unfolded btc_usdt_def])
qed

lemma order_updated_empty_total:
  "available (order_updated bal ord []) s + holds (order_updated bal ord []) (order_id ord) s
     = available bal s + holds bal (order_id ord) s"
  by (simp add: order_updated_def release_holds_def)

subsection \<open>The example evaluated\<close>

lemma example_holding_eq:
  "example_exchange_holding =
     (example_exchange_seen (example_bar 100 100))
       \<lparr>orders := \<lparr>orders_by_id = [''o1'' \<mapsto> example_order], open_orders = [''o1''],
                   reindex_every = 50, reindex_counter = 0\<rparr>,
        balances := \<lparr>available = (get_amount [(''USDT'', 10000)])(''USDT'' := 8990),
                     holds = (\<lambda>_ _. 0)(''o1'' := (\<lambda>_. 0)(''USDT'' := 1010))\<rparr>\<rparr>"
proof -
  have v: "validate example_collaborators (example_request BUY 10 Market)
             (get_pair_info (example_exchange_seen (example_bar 100 100))
                (req_pair (example_request BUY 10 Market))) = None"
    by (simp add: example_collaborators_def example_request_def)
  have c: "check_available_balance (balances (example_exchange_seen (example_bar 100 100)))
             [(''USDT'', 1010)] = None"
    by (simp add: ex_defs get_available_balance_def get_amount_def)
  have a: "add_order (orders (example_exchange_seen (example_bar 100 100))) example_order
            = Inr \<lparr>orders_by_id = [''o1'' \<mapsto> example_order], open_orders = [''o1''],
                   reindex_every = 50, reindex_counter = 0\<rparr>"
    by (simp add: add_order_def ex_defs example_order_def request_create_order_def is_open_def)
  have h: "order_accepted (balances (example_exchange_seen (example_bar 100 100))) example_order
             [(''USDT'', 1010)]
           = Inr \<lparr>available = (get_amount [(''USDT'', 10000)])(''USDT'' := 8990),
                  holds = (\<lambda>_ _. 0)(''o1'' := (\<lambda>_. 0)(''USDT'' := 1010))\<rparr>"
    by (simp add: order_accepted_def ex_defs example_order_def request_create_order_def get_amount_def)
  show ?thesis
    unfolding example_exchange_holding_def create_order_def
    by (simp add: Let_def v example_estimate c example_order_def [symmetric] a h
        del: check_available_balance.simps)
qed

lemma example_holding_fields [simp]:
  "available (balances example_exchange_holding) ''USDT'' = 8990"
  "available (balances example_exchange_holding) ''BTC'' = 0"
  "holds (balances example_exchange_holding) ''o1'' ''USDT'' = 1010"
  "holds (balances example_exchange_holding) ''o1'' ''BTC'' = 0"
  "fee_strategy example_exchange_holding = example_fee"
  "calls example_exchange_holding = []"
  "get_pair_info example_exchange_holding btc_usdt = \<lparr>base_precision = 8, quote_precision = 2\<rparr>"
  by (simp_all add: example_holding_eq get_amount_def get_pair_info_def)
     (simp_all add: ex_defs)

lemma example_order_fields [simp]:
  "order_id example_order = ''o1''"
  "operation example_order = BUY"
  "order_pair example_order = btc_usdt"
  "amount example_order = 10"
  "amount_filled example_order = 0"
  "fees example_order = []"
  "state example_order = OPEN"
  "kind example_order = Market"
  by (simp_all add: example_order_def request_create_order_def example_request_def)

lemma btc_usdt_fields [simp]:
  "base_symbol btc_usdt = ''BTC''" "quote_symbol btc_usdt = ''USDT''"
  by (simp_all add: btc_usdt_def)

lemma example_bar_fields [simp]:
  "bar_pair (example_bar x y) = btc_usdt" "bar_open (example_bar x y) = x"
  "bar_close (example_bar x y) = y" "bar_volume (example_bar x y) = 1000"
  by (simp_all add: example_bar_def)

lemma example_fill_eval:
  "get_balance_updates example_collaborators example_order (example_bar 2000 2000) (1, 250)
     = ([(''BTC'', 10), (''USDT'', - 20000)], example_order)"
  "get_balance_updates example_collaborators example_order (example_bar 100 100) (1, 250)
     = ([(''BTC'', 10), (''USDT'', - 1000)], example_order)"
  by (simp_all add: example_collaborators_def example_fill_def get_base_sign_for_operation_def Let_def)

lemma example_round_updates:
  "round_balance_updates example_exchange_holding btc_usdt [(''BTC'', 10), (''USDT'', - 20000)]
     = [(''BTC'', 10), (''USDT'', - 20000)]"
  "round_balance_updates example_exchange_holding btc_usdt [(''BTC'', 10), (''USDT'', - 1000)]
     = [(''BTC'', 10), (''USDT'', - 1000)]"
  by (simp_all add: round_balance_updates_def rounding_defs remove_empty_amounts_def)

lemma example_round_fees:
  "round_fees example_exchange_holding btc_usdt
     (example_fee example_order [(''BTC'', 10), (''USDT'', - 20000)])
     = [(''USDT'', - 200)]"
  "round_fees example_exchange_holding btc_usdt
     (example_fee example_order [(''BTC'', 10), (''USDT'', - 1000)])
     = [(''USDT'', - 10)]"
  by (simp_all add: round_fees_def round_fee_def rounding_defs remove_empty_amounts_def
      example_fee_def get_amount_def)

lemma example_final:
  "remove_empty_amounts (add_amounts [(''BTC'', 10), (''USDT'', - 20000)] [(''USDT'', - 200)])
     = [(''BTC'', 10), (''USDT'', - 20200)]"
  "remove_empty_amounts (add_amounts [(''BTC'', 10), (''USDT'', - 1000)] [(''USDT'', - 10)])
     = [(''BTC'', 10), (''USDT'', - 1010)]"
  by (simp_all add: remove_empty_amounts_def add_amounts_def get_amount_def)

lemma tiny_order_fields [simp]:
  "order_id tiny_order = ''o2''"
  "operation tiny_order = BUY"
  "order_pair tiny_order = btc_usdt"
  "amount tiny_order = 4 / 10 ^ 9"
  "amount_filled tiny_order = 0"
  "state tiny_order = OPEN"
  "kind tiny_order = Limit 100"
  by (simp_all add: tiny_order_def request_create_order_def example_request_def)

subsection \<open>Required balances\<close>

lemma keys_remove_empty_amounts: "set (map fst (remove_empty_amounts d)) \<subseteq> set (map fst d)"
  by (auto simp: remove_empty_amounts_def)

lemma keys_update_present:
  "map_of d k = Some v \<Longrightarrow> map fst (AList.update k w d) = map fst d"
  by (simp add: update_keys map_of_eq_None_iff weak_map_of_SomeI domI dom_map_of_conv_image_fst [symmetric])

lemma keys_cond_update:
  "map fst (case map_of d k of None \<Rightarrow> d
            | Some v \<Rightarrow> if v \<noteq> 0 then AList.update k (g v) d else d) = map fst d"
  by (auto simp: keys_update_present split: option.splits)

lemma round_balance_updates_keys:
  "\<exists>ret. map fst ret = map fst u \<and> round_balance_updates ex p u = remove_empty_amounts ret"
proof -
  define ret1 where "ret1 = (case map_of u (base_symbol p) of
                    None \<Rightarrow> u
                  | Some base_amount \<Rightarrow>
                      if base_amount \<noteq> 0 then
                        AList.update (base_symbol p)
                          (truncate_decimal base_amount (base_precision (get_pair_info ex p))) u
                      else u)"
  define ret2 where "ret2 = (case map_of ret1 (quote_symbol p) of
                    None \<Rightarrow> ret1
                  | Some quote_amount \<Rightarrow>
                      if quote_amount \<noteq> 0 then
                        AList.update (quote_symbol p)
                          (round_decimal quote_amount (quote_precision (get_pair_info ex p))
                             ROUND_HALF_EVEN) ret1
                      else ret1)"
  have r: "round_balance_updates ex p u = remove_empty_amounts ret2"
    by (simp only: round_balance_updates_def Let_def ret2_def ret1_def)
  have k1: "map fst ret1 = map fst u"
    unfolding ret1_def by (rule keys_cond_update)
  have k2: "map fst ret2 = map fst ret1"
    unfolding ret2_def by (rule keys_cond_update)
  show ?thesis using r k1 k2 by auto
qed

lemma keys_round_balance_updates:
  "set (map fst (round_balance_updates ex p u)) \<subseteq> set (map fst u)"
  using round_balance_updates_keys [of u ex p] keys_remove_empty_amounts by metis

lemma distinct_round_balance_updates:
  "distinct (map fst u) \<Longrightarrow> distinct (map fst (round_balance_updates ex p u))"
  using round_balance_updates_keys [of u ex p] distinct_remove_empty_amounts by metis

lemma length_two_iff:
  assumes d: "distinct (map fst est)" and sub: "set (map fst est) \<subseteq> {b, q}" and neq: "b \<noteq> q"
  shows "length est = 2 \<longleftrightarrow> map_of est b \<noteq> None \<and> map_of est q \<noteq> None"
proof -
  have len: "length est = card (set (map fst est))"
    using d distinct_card [of "map fst est"] by simp
  have "card (set (map fst est)) = 2 \<longleftrightarrow> set (map fst est) = {b, q}"
  proof
    assume "card (set (map fst est)) = 2"
    moreover have "card {b, q} = 2" using neq by simp
    ultimately show "set (map fst est) = {b, q}"
      using sub by (metis card_subset_eq finite.emptyI finite.insertI)
  next
    assume "set (map fst est) = {b, q}"
    then show "card (set (map fst est)) = 2" using neq by simp
  qed
  moreover have "set (map fst est) = {b, q} \<longleftrightarrow> b \<in> set (map fst est) \<and> q \<in> set (map fst est)"
    using sub by auto
  ultimately show ?thesis
    unfolding len by (simp add: map_of_eq_None_iff)
qed

lemma distinct_add_amounts: "distinct (map fst (add_amounts l r))"
  by (simp add: add_amounts_def comp_def)

lemma map_of_negated_negatives:
  "distinct (map fst d) \<Longrightarrow>
   map_of (map (\<lambda>(s, a). (s, - a)) (filter (\<lambda>(s, a). a < 0) d)) k =
     (case map_of d k of None \<Rightarrow> None | Some a \<Rightarrow> if a < 0 then Some (- a) else None)"
proof (induction d)
  case Nil
  then show ?case by simp
next
  case (Cons sa d)
  obtain s a where sa: "sa = (s, a)" by (cases sa)
  from Cons.prems sa have "map_of d s = None" by (auto simp: map_of_eq_None_iff)
  with Cons sa show ?case by (auto split: option.splits)
qed

subsection \<open>Order submission\<close>

lemma estimate_required_positive:
  "(s, r) \<in> set (estimate_required_balances ex req) \<Longrightarrow> 0 < r"
  by (auto simp: estimate_required_balances_def Let_def)

lemma check_available_balance_short:
  assumes "\<forall>sr \<in> set required. 0 < snd sr"
      and "\<exists>sr \<in> set required. available bal (fst sr) < snd sr"
  shows "\<exists>s r. (s, r) \<in> set required \<and> available bal s < r
            \<and> check_available_balance bal required = Some (Error_not_enough s r (available bal s))"
  using assms
proof (induction required)
  case Nil
  then show ?case by simp
next
  case (Cons sr required)
  obtain s r where sr: "sr = (s, r)" by (cases sr)
  show ?case
  proof (cases "available bal s < r")
    case True
    with Cons.prems sr show ?thesis
      by (auto simp: Let_def get_available_balance_def)
  next
    case False
    with Cons.prems sr have "\<exists>sr \<in> set required. available bal (fst sr) < snd sr"
      and "\<forall>sr \<in> set required. 0 < snd sr" by auto
    from Cons.IH [OF this(2) this(1)] obtain s' r' where
      "(s', r') \<in> set required" "available bal s' < r'"
      "check_available_balance bal required = Some (Error_not_enough s' r' (available bal s'))"
      by blast
    with False Cons.prems sr show ?thesis
      by (auto simp: Let_def get_available_balance_def)
  qed
qed

lemma hold_required_error: "hold_required ident required bal = Inl e \<Longrightarrow> \<exists>m. e = AssertionError m"
  by (induction ident required bal rule: hold_required.induct) (auto split: if_splits)

lemma example_estimate_1000:
  "estimate_required_balances (example_exchange_seen (example_bar 100 100))
     (example_request BUY 1000 Market) = [(''USDT'', 101000)]"
proof -
  have p: "req_pair (example_request BUY 1000 Market) = btc_usdt"
    by (simp add: example_request_def)
  have lp: "get_last_price (example_exchange_seen (example_bar 100 100)) btc_usdt = Some 100"
    by (simp add: get_last_price_def ex_defs)
  have r: "round_balance_updates (example_exchange_seen (example_bar 100 100)) btc_usdt
             [(''BTC'', 1000), (''USDT'', - 100000)] = [(''BTC'', 1000), (''USDT'', - 100000)]"
    by (simp add: round_balance_updates_def rounding_defs remove_empty_amounts_def)
  have fe: "fee_strategy (example_exchange_seen (example_bar 100 100)) = example_fee"
    by (simp add: ex_defs)
  have f: "round_fees (example_exchange_seen (example_bar 100 100)) btc_usdt [(''USDT'', - 1000)]
            = [(''USDT'', - 1000)]"
    by (simp add: round_fees_def round_fee_def rounding_defs remove_empty_amounts_def)
  show ?thesis
    unfolding estimate_required_balances_def p
    by (simp add: Let_def lp get_estimated_fill_price_def truthy_def get_base_sign_for_operation_def
        example_request_def r fe example_fee_def request_create_order_def get_amount_def f
        add_amounts_def)
qed

subsection \<open>The handling of a bar event\<close>

lemma open_orders_loop_rel:
  assumes step: "\<And>ord w ord' w'. body ord w = Inr (ord', w') \<Longrightarrow> R w w'"
      and refl: "\<And>w. R w w"
      and trans: "\<And>a b c. R a b \<Longrightarrow> R b c \<Longrightarrow> R a c"
      and run: "open_orders_loop body refs store new w ys = Inr (store', new', w', ys')"
  shows "R w w'"
  using run
proof (induction refs arbitrary: store new w ys)
  case Nil
  then show ?case using refl by simp
next
  case (Cons r refs)
  show ?case
  proof (cases "store r")
    case None
    with Cons show ?thesis by simp
  next
    case (Some ord)
    show ?thesis
    proof (cases "is_open ord")
      case False
      with Some Cons show ?thesis by simp
    next
      case True
      show ?thesis
      proof (cases "body ord w")
        case (Inl e)
        with Some True Cons.prems show ?thesis by simp
      next
        case (Inr p)
        obtain ord1 w1 where p: "p = (ord1, w1)" by (cases p)
        from Inr p Some True Cons.prems have
          "open_orders_loop body refs (store(r \<mapsto> ord1))
             (case new of None \<Rightarrow> None
              | Some l \<Rightarrow> if is_open ord1 then Some (l @ [r]) else Some l)
             w1 (ys @ [(r, ord)]) = Inr (store', new', w', ys')"
          by simp
        from Cons.IH [OF this] have "R w1 w'" .
        moreover from step Inr p have "R w w1" by simp
        ultimately show ?thesis using trans by blast
      qed
    qed
  qed
qed

text \<open>The calls of the matching of orders: neither the cache update nor the forwarding.\<close>

lemma process_order_frame:
  assumes "process_order cs ex ord0 b liq = Inr (ord', ex', liq')"
  shows "last_bars ex' = last_bars ex \<and> bar_event_source ex' = bar_event_source ex
       \<and> liquidity_strategies ex' = liquidity_strategies ex
       \<and> liquidity_strategy_factory ex' = liquidity_strategy_factory ex
       \<and> orders ex' = orders ex
       \<and> (\<exists>m. calls ex' = calls ex @ m
              \<and> (\<forall>c \<in> set m. (\<forall>e. c \<noteq> Call_push e) \<and> (\<forall>x. c \<noteq> Call_set_last_bar x)
                                \<and> c \<noteq> Call_factory \<and> (\<forall>x. c \<noteq> Call_on_bar x)))"
  using assms
  unfolding process_order_def
  by (auto simp: Let_def order_not_filled_eq log_call_def
           split: prod.splits if_splits option.splits sum.splits)


lemma process_orders_frame:
  assumes run: "process_orders cs ex b = Inr ex'"
  shows "last_bars ex' = last_bars ex \<and> bar_event_source ex' = bar_event_source ex
       \<and> liquidity_strategy_factory ex' = liquidity_strategy_factory ex
       \<and> (liquidity_strategies ex (bar_pair b) = None
            \<longrightarrow> liquidity_strategies ex' = liquidity_strategies ex)
       \<and> (\<exists>m. calls ex' = calls ex
                  @ (case liquidity_strategies ex (bar_pair b) of
                       None \<Rightarrow> [Call_factory] | Some _ \<Rightarrow> [])
                  @ [Call_on_bar b] @ m
              \<and> (\<forall>c \<in> set m. (\<forall>e. c \<noteq> Call_push e) \<and> (\<forall>x. c \<noteq> Call_set_last_bar x)
                                \<and> c \<noteq> Call_factory \<and> (\<forall>x. c \<noteq> Call_on_bar x)))"
proof -
  define R :: "'a exchange \<times> 'a \<Rightarrow> 'a exchange \<times> 'a \<Rightarrow> bool" where
    "R = (\<lambda>xl xl'. last_bars (fst xl') = last_bars (fst xl)
            \<and> bar_event_source (fst xl') = bar_event_source (fst xl)
            \<and> liquidity_strategies (fst xl') = liquidity_strategies (fst xl)
            \<and> liquidity_strategy_factory (fst xl') = liquidity_strategy_factory (fst xl)
            \<and> (\<exists>m. calls (fst xl') = calls (fst xl) @ m
                  \<and> (\<forall>c \<in> set m. (\<forall>e. c \<noteq> Call_push e) \<and> (\<forall>x. c \<noteq> Call_set_last_bar x)
                                    \<and> c \<noteq> Call_factory \<and> (\<forall>x. c \<noteq> Call_on_bar x))))"
  define body where "body = (\<lambda>ord (x, l).
                   if order_pair ord = bar_pair b then
                     (case process_order cs x ord b l of
                        Inl e \<Rightarrow> Inl e
                      | Inr (ord', x', l') \<Rightarrow> Inr (ord', (x', l')))
                   else Inr (ord, (x, l)))"
  have refl: "R w w" for w by (simp add: R_def)
  have trans: "R a c" if "R a b'" "R b' c" for a b' c
  proof -
    from that obtain m1 m2 where
      "calls (fst b') = calls (fst a) @ m1" "calls (fst c) = calls (fst b') @ m2"
      "\<forall>c \<in> set m1. (\<forall>e. c \<noteq> Call_push e) \<and> (\<forall>x. c \<noteq> Call_set_last_bar x)
                                    \<and> c \<noteq> Call_factory \<and> (\<forall>x. c \<noteq> Call_on_bar x)"
      "\<forall>c \<in> set m2. (\<forall>e. c \<noteq> Call_push e) \<and> (\<forall>x. c \<noteq> Call_set_last_bar x)
                                    \<and> c \<noteq> Call_factory \<and> (\<forall>x. c \<noteq> Call_on_bar x)"
      unfolding R_def by blast
    then have "calls (fst c) = calls (fst a) @ (m1 @ m2)
       \<and> (\<forall>c \<in> set (m1 @ m2). (\<forall>e. c \<noteq> Call_push e) \<and> (\<forall>x. c \<noteq> Call_set_last_bar x)
                                    \<and> c \<noteq> Call_factory \<and> (\<forall>x. c \<noteq> Call_on_bar x))"
      by auto
    then have "\<exists>m. calls (fst c) = calls (fst a) @ m
       \<and> (\<forall>c \<in> set m. (\<forall>e. c \<noteq> Call_push e) \<and> (\<forall>x. c \<noteq> Call_set_last_bar x)
                                    \<and> c \<noteq> Call_factory \<and> (\<forall>x. c \<noteq> Call_on_bar x))"
      by blast
    with that show ?thesis unfolding R_def by simp
  qed
  have step: "R w w'" if "body ord w = Inr (ord', w')" for ord w ord' w'
  proof -
    obtain x l where w: "w = (x, l)" by (cases w)
    obtain x' l' where w': "w' = (x', l')" by (cases w')
    show ?thesis
    proof (cases "order_pair ord = bar_pair b")
      case False
      with that w have "w' = w" by (simp add: body_def)
      then show ?thesis by (simp add: refl)
    next
      case True
      with that w w' have "process_order cs x ord b l = Inr (ord', x', l')"
        by (auto simp: body_def split: sum.splits)
      from process_order_frame [OF this] show ?thesis
        unfolding R_def w w' by simp
    qed
  qed
  define found where "found = liquidity_strategies ex (bar_pair b)"
  define ex1 where "ex1 = (case found of None \<Rightarrow> log_call Call_factory ex | Some l \<Rightarrow> ex)"
  define l0 where "l0 = (case found of None \<Rightarrow> liquidity_strategy_factory ex () | Some l \<Rightarrow> l)"
  define ex2 where "ex2 = log_call (Call_on_bar b) ex1"
  have po: "process_orders cs ex b =
     (case get_open_orders body (orders ex2) (ex2, on_bar cs b l0) of
        Inl e \<Rightarrow> Inl e
      | Inr (idx, (ex3, l), yielded) \<Rightarrow>
          Inr (ex3\<lparr>orders := idx,
                   liquidity_strategies :=
                     (case found of
                        None \<Rightarrow> liquidity_strategies ex3
                      | Some _ \<Rightarrow> (liquidity_strategies ex3)(bar_pair b \<mapsto> l))\<rparr>))"
    unfolding process_orders_def Let_def body_def ex2_def ex1_def l0_def found_def
    by (cases "liquidity_strategies ex (bar_pair b)") simp_all
  from run po obtain idx ex3 l yielded where
    g: "get_open_orders body (orders ex2) (ex2, on_bar cs b l0) = Inr (idx, (ex3, l), yielded)"
    and ex': "ex' = ex3\<lparr>orders := idx,
                   liquidity_strategies :=
                     (case found of
                        None \<Rightarrow> liquidity_strategies ex3
                      | Some _ \<Rightarrow> (liquidity_strategies ex3)(bar_pair b \<mapsto> l))\<rparr>"
    by (auto split: sum.splits prod.splits)
  from g obtain store new ys where
    "open_orders_loop body (open_orders (orders ex2)) (orders_by_id (orders ex2))
       (if (reindex_counter (orders ex2) + 1) mod reindex_every (orders ex2) = 0 then Some [] else None)
       (ex2, on_bar cs b l0) [] = Inr (store, new, (ex3, l), ys)"
    by (auto simp: get_open_orders_def Let_def split: sum.splits prod.splits)
  from open_orders_loop_rel [of body R, OF step refl trans this]
  have r: "R (ex2, on_bar cs b l0) (ex3, l)" .
  have c2: "calls ex2 = calls ex @ (case found of None \<Rightarrow> [Call_factory] | Some _ \<Rightarrow> [])
              @ [Call_on_bar b]"
    by (simp add: ex2_def ex1_def split: option.splits)
  have f2: "last_bars ex2 = last_bars ex" "bar_event_source ex2 = bar_event_source ex"
    "liquidity_strategies ex2 = liquidity_strategies ex"
    "liquidity_strategy_factory ex2 = liquidity_strategy_factory ex"
    by (simp_all add: ex2_def ex1_def split: option.splits)
  from r obtain m where m: "calls ex3 = calls ex2 @ m"
    "\<forall>c \<in> set m. (\<forall>e. c \<noteq> Call_push e) \<and> (\<forall>x. c \<noteq> Call_set_last_bar x)
                                    \<and> c \<noteq> Call_factory \<and> (\<forall>x. c \<noteq> Call_on_bar x)"
    unfolding R_def by auto
  from r have f3: "last_bars ex3 = last_bars ex2" "bar_event_source ex3 = bar_event_source ex2"
    "liquidity_strategies ex3 = liquidity_strategies ex2"
    "liquidity_strategy_factory ex3 = liquidity_strategy_factory ex2"
    unfolding R_def by auto
  have "calls ex' = calls ex @ (case found of None \<Rightarrow> [Call_factory] | Some _ \<Rightarrow> [])
              @ [Call_on_bar b] @ m"
    using m c2 ex' by simp
  with m(2) have "\<exists>m. calls ex' = calls ex
                  @ (case liquidity_strategies ex (bar_pair b) of
                       None \<Rightarrow> [Call_factory] | Some _ \<Rightarrow> [])
                  @ [Call_on_bar b] @ m
              \<and> (\<forall>c \<in> set m. (\<forall>e. c \<noteq> Call_push e) \<and> (\<forall>x. c \<noteq> Call_set_last_bar x)
                                \<and> c \<noteq> Call_factory \<and> (\<forall>x. c \<noteq> Call_on_bar x))"
    unfolding found_def by blast
  moreover have "last_bars ex' = last_bars ex" "bar_event_source ex' = bar_event_source ex"
    "liquidity_strategy_factory ex' = liquidity_strategy_factory ex"
    using ex' f2 f3 by simp_all
  moreover have "liquidity_strategies ex (bar_pair b) = None
            \<longrightarrow> liquidity_strategies ex' = liquidity_strategies ex"
    using ex' f2 f3 by (simp add: found_def)
  ultimately show ?thesis by blast
qed


lemma example_process_order_fill:
  assumes bal: "balances X = balances example_exchange_holding"
      and info: "get_pair_info X btc_usdt = \<lparr>base_precision = 8, quote_precision = 2\<rparr>"
      and fee: "fee_strategy X = example_fee"
  shows "process_order example_collaborators X example_order (example_bar 100 100) (1, 250) =
           Inr (example_order\<lparr>amount_filled := 10, fees := [(''USDT'', - 10)], state := COMPLETED\<rparr>,
                X\<lparr>balances := order_updated (balances example_exchange_holding)
                                 (example_order\<lparr>amount_filled := 10, fees := [(''USDT'', - 10)],
                                                state := COMPLETED\<rparr>)
                                 [(''BTC'', 10), (''USDT'', - 1010)],
                   calls := calls X @
                     [Call_get_balance_updates ''o1'', Call_take_liquidity 10,
                      Call_add_fill ''o1'' [(''BTC'', 10), (''USDT'', - 1000)] [(''USDT'', - 10)],
                      Call_order_updated ''o1'' [(''BTC'', 10), (''USDT'', - 1010)]]\<rparr>,
                (1, 240))"
proof -
  have a1: "assert_has_value [(''BTC'', 10), (''USDT'', - 1000)]
              (base_symbol (order_pair example_order))
              (get_base_sign_for_operation (operation example_order)) = None"
    by (simp add: assert_has_value_def get_sign_def get_base_sign_for_operation_def)
  have a2: "assert_has_value [(''BTC'', 10), (''USDT'', - 1000)]
              (quote_symbol (order_pair example_order))
              (- get_base_sign_for_operation (operation example_order)) = None"
    by (simp add: assert_has_value_def get_sign_def get_base_sign_for_operation_def)
  have r: "round_balance_updates X btc_usdt [(''BTC'', 10), (''USDT'', - 1000)]
             = [(''BTC'', 10), (''USDT'', - 1000)]"
    by (simp add: round_balance_updates_def rounding_defs remove_empty_amounts_def info)
  have f: "round_fees X btc_usdt (example_fee example_order [(''BTC'', 10), (''USDT'', - 1000)])
             = [(''USDT'', - 10)]"
    by (simp add: round_fees_def round_fee_def rounding_defs remove_empty_amounts_def
        example_fee_def get_amount_def info)
  have add: "add_fill example_order [(''BTC'', 10), (''USDT'', - 1000)] [(''USDT'', - 10)]
             = Inr (example_order\<lparr>amount_filled := 10, fees := [(''USDT'', - 10)],
                                  state := COMPLETED\<rparr>)"
    by (simp add: add_fill_def add_amounts_def get_amount_def)
  have ns: "\<not> balances_short (balances example_exchange_holding) ''o1''
               [(''BTC'', 10), (''USDT'', - 1010)]"
    by (simp add: balances_short_iff)
  show ?thesis
    unfolding process_order_checked [OF example_fill_eval(2) refl a1 a2, of X]
    by (simp add: Let_def r f fee example_final add ns bal example_collaborators_def
        del: balances_short.simps)
qed


lemma example_subscribed_fields [simp]:
  "balances example_exchange_subscribed = balances example_exchange_holding"
  "fee_strategy example_exchange_subscribed = example_fee"
  "calls example_exchange_subscribed = []"
  "liquidity_strategies example_exchange_subscribed = Map.empty"
  "liquidity_strategy_factory example_exchange_subscribed = (\<lambda>_. (0, 0))"
  "bar_event_source example_exchange_subscribed = [btc_usdt \<mapsto> []]"
  "orders example_exchange_subscribed =
     \<lparr>orders_by_id = [''o1'' \<mapsto> example_order], open_orders = [''o1''],
      reindex_every = 50, reindex_counter = 0\<rparr>"
  by (simp_all add: example_exchange_subscribed_def subscribe_to_bar_events_def example_holding_eq)
     (simp_all add: ex_defs)

lemma get_pair_info_subscribed [simp]:
  "get_pair_info example_exchange_subscribed btc_usdt
     = \<lparr>base_precision = 8, quote_precision = 2\<rparr>"
  by (simp add: get_pair_info_def example_exchange_subscribed_def subscribe_to_bar_events_def
      example_holding_eq)
     (simp add: ex_defs)

lemma example_bar_event:
  "on_bar_event example_collaborators example_exchange_subscribed (BarEvent (example_bar 100 100)) =
     Inr (example_exchange_subscribed
            \<lparr>last_bars := (last_bars example_exchange_subscribed)(btc_usdt \<mapsto> example_bar 100 100),
             calls := [Call_set_last_bar (example_bar 100 100), Call_factory,
                       Call_on_bar (example_bar 100 100),
                       Call_get_balance_updates ''o1'', Call_take_liquidity 10,
                       Call_add_fill ''o1'' [(''BTC'', 10), (''USDT'', - 1000)] [(''USDT'', - 10)],
                       Call_order_updated ''o1'' [(''BTC'', 10), (''USDT'', - 1010)],
                       Call_push (BarEvent (example_bar 100 100))],
             balances := order_updated (balances example_exchange_holding)
                                 (example_order\<lparr>amount_filled := 10, fees := [(''USDT'', - 10)],
                                                state := COMPLETED\<rparr>)
                                 [(''BTC'', 10), (''USDT'', - 1010)],
             orders := \<lparr>orders_by_id = [''o1'' \<mapsto> example_order\<lparr>amount_filled := 10,
                                             fees := [(''USDT'', - 10)], state := COMPLETED\<rparr>],
                        open_orders = [''o1''], reindex_every = 50, reindex_counter = 1\<rparr>,
             bar_event_source := [btc_usdt \<mapsto> [BarEvent (example_bar 100 100)]]\<rparr>)"
proof -
  define X where "X = example_exchange_subscribed
       \<lparr>last_bars := (last_bars example_exchange_subscribed)(btc_usdt \<mapsto> example_bar 100 100),
        calls := [Call_set_last_bar (example_bar 100 100), Call_factory,
                  Call_on_bar (example_bar 100 100)]\<rparr>"
  have po: "process_order example_collaborators X example_order (example_bar 100 100) (Suc 0, 250) =
           Inr (example_order\<lparr>amount_filled := 10, fees := [(''USDT'', - 10)], state := COMPLETED\<rparr>,
                X\<lparr>balances := order_updated (balances example_exchange_holding)
                                 (example_order\<lparr>amount_filled := 10, fees := [(''USDT'', - 10)],
                                                state := COMPLETED\<rparr>)
                                 [(''BTC'', 10), (''USDT'', - 1010)],
                   calls := calls X @
                     [Call_get_balance_updates ''o1'', Call_take_liquidity 10,
                      Call_add_fill ''o1'' [(''BTC'', 10), (''USDT'', - 1000)] [(''USDT'', - 10)],
                      Call_order_updated ''o1'' [(''BTC'', 10), (''USDT'', - 1010)]]\<rparr>,
                (Suc 0, 240))"
    using example_process_order_fill [of X] by (simp add: X_def)
  have oX: "orders X = \<lparr>orders_by_id = [''o1'' \<mapsto> example_order], open_orders = [''o1''],
                         reindex_every = 50, reindex_counter = 0\<rparr>"
    by (simp add: X_def)
  have pos: "process_orders example_collaborators
               (example_exchange_subscribed
                  \<lparr>last_bars := (last_bars example_exchange_subscribed)(btc_usdt \<mapsto> example_bar 100 100),
                   calls := [Call_set_last_bar (example_bar 100 100)]\<rparr>) (example_bar 100 100) =
             Inr (X\<lparr>balances := order_updated (balances example_exchange_holding)
                                 (example_order\<lparr>amount_filled := 10, fees := [(''USDT'', - 10)],
                                                state := COMPLETED\<rparr>)
                                 [(''BTC'', 10), (''USDT'', - 1010)],
                   calls := calls X @
                     [Call_get_balance_updates ''o1'', Call_take_liquidity 10,
                      Call_add_fill ''o1'' [(''BTC'', 10), (''USDT'', - 1000)] [(''USDT'', - 10)],
                      Call_order_updated ''o1'' [(''BTC'', 10), (''USDT'', - 1010)]],
                   orders := \<lparr>orders_by_id = [''o1'' \<mapsto> example_order\<lparr>amount_filled := 10,
                                             fees := [(''USDT'', - 10)], state := COMPLETED\<rparr>],
                        open_orders = [''o1''], reindex_every = 50, reindex_counter = 1\<rparr>\<rparr>)"
    unfolding process_orders_def get_open_orders_def
    by (simp add: Let_def log_call_def example_collaborators_def [THEN arg_cong, of on_bar]
         X_def [symmetric] is_open_def)
       (simp add: po [unfolded example_collaborators_def] example_collaborators_def X_def [symmetric]
          po is_open_def oX)
  show ?thesis
    unfolding on_bar_event_def
    by (simp add: Let_def log_call_def pos) (simp add: X_def)
qed



lemma on_bar_event_no_orders:
  assumes "open_orders (orders X) = []" and "liquidity_strategies X (bar_pair b) = None"
      and "bar_event_source X (bar_pair b) = None"
  shows "on_bar_event cs X (BarEvent b) =
           Inr (X\<lparr>last_bars := (last_bars X)(bar_pair b \<mapsto> b),
                  calls := calls X @ [Call_set_last_bar b, Call_factory, Call_on_bar b],
                  orders := (orders X)
                     \<lparr>open_orders := [],
                      reindex_counter := reindex_counter (orders X) + 1\<rparr>\<rparr>)"
  using assms
  by (simp add: on_bar_event_def process_orders_def get_open_orders_def Let_def log_call_def)

subsection \<open>The iteration over the open orders\<close>

lemma open_in_upd_other:
  "q \<noteq> r \<Longrightarrow> open_in (store(q \<mapsto> v)) r = open_in store r"
  by simp

lemma open_orders_loop_untouched:
  assumes "open_orders_loop body refs store new w yielded = Inr (store', new', w', yielded')"
      and "r \<notin> set refs \<or> \<not> open_in store r"
  shows "store' r = store r"
  using assms
proof (induction refs arbitrary: store new w yielded)
  case Nil
  then show ?case by simp
next
  case (Cons q rest)
  show ?case
  proof (cases "store q")
    case None
    with Cons.prems have "open_orders_loop body rest store new w yielded
                            = Inr (store', new', w', yielded')" by simp
    moreover have "r \<notin> set rest \<or> \<not> open_in store r" using Cons.prems(2) by auto
    ultimately show ?thesis by (rule Cons.IH)
  next
    case (Some ord)
    show ?thesis
    proof (cases "is_open ord")
      case False
      with Some Cons.prems have "open_orders_loop body rest store new w yielded
                            = Inr (store', new', w', yielded')" by simp
      moreover have "r \<notin> set rest \<or> \<not> open_in store r" using Cons.prems(2) by auto
      ultimately show ?thesis by (rule Cons.IH)
    next
      case True
      with Some Cons.prems(1) obtain ord2 w2 where
        b: "body ord w = Inr (ord2, w2)"
        and run: "open_orders_loop body rest (store(q \<mapsto> ord2))
                    (case new of None \<Rightarrow> None
                     | Some l \<Rightarrow> if is_open ord2 then Some (l @ [q]) else Some l)
                    w2 (yielded @ [(q, ord)]) = Inr (store', new', w', yielded')"
        by (auto split: sum.splits)
      have oq: "open_in store q" using Some True by simp
      with Cons.prems(2) have ne: "q \<noteq> r" by auto
      then have "r \<notin> set rest \<or> \<not> open_in (store(q \<mapsto> ord2)) r"
        using Cons.prems(2) by (auto simp: open_in_upd_other)
      from Cons.IH [OF run this] ne show ?thesis by simp
    qed
  qed
qed

lemma open_orders_loop_yielded:
  assumes "open_orders_loop body refs store new w yielded = Inr (store', new', w', yielded')"
      and "distinct refs"
  shows "\<exists>ys. yielded' = yielded @ ys
             \<and> map fst ys = filter (open_in store) refs
             \<and> (\<forall>(r, ord) \<in> set ys. store r = Some ord \<and> is_open ord)"
  using assms
proof (induction refs arbitrary: store new w yielded)
  case Nil
  then show ?case by simp
next
  case (Cons q rest)
  from Cons.prems(2) have d: "distinct rest" and nq: "q \<notin> set rest" by auto
  show ?case
  proof (cases "open_in store q")
    case False
    with Cons.prems(1) have "open_orders_loop body rest store new w yielded
                            = Inr (store', new', w', yielded')"
      by (auto split: option.splits if_splits)
    from Cons.IH [OF this d] False show ?thesis by simp
  next
    case True
    then obtain ord where s: "store q = Some ord" and o: "is_open ord"
      by (auto split: option.splits)
    with Cons.prems(1) obtain ord2 w2 where
      run: "open_orders_loop body rest (store(q \<mapsto> ord2))
                  (case new of None \<Rightarrow> None
                   | Some l \<Rightarrow> if is_open ord2 then Some (l @ [q]) else Some l)
                  w2 (yielded @ [(q, ord)]) = Inr (store', new', w', yielded')"
      by (auto split: sum.splits)
    from Cons.IH [OF run d] obtain ys where
      y: "yielded' = (yielded @ [(q, ord)]) @ ys"
      and m: "map fst ys = filter (open_in (store(q \<mapsto> ord2))) rest"
      and a: "\<forall>(r, x) \<in> set ys. (store(q \<mapsto> ord2)) r = Some x \<and> is_open x"
      by blast
    have f: "filter (open_in (store(q \<mapsto> ord2))) rest = filter (open_in store) rest"
    proof (rule filter_cong [OF refl])
      fix x assume "x \<in> set rest"
      with nq have "q \<noteq> x" by auto
      then show "open_in (store(q \<mapsto> ord2)) x = open_in store x" by (rule open_in_upd_other)
    qed
    have sub: "fst ` set ys \<subseteq> set rest"
    proof -
      have "set (map fst ys) \<subseteq> set rest" unfolding m by auto
      then show ?thesis by simp
    qed
    have a': "\<forall>(r, x) \<in> set ys. store r = Some x \<and> is_open x"
    proof (clarify)
      fix r x assume in_ys: "(r, x) \<in> set ys"
      then have "r \<in> set rest" using sub by force
      with nq have "r \<noteq> q" by auto
      with a in_ys show "store r = Some x \<and> is_open x" by auto
    qed
    let ?ys = "(q, ord) # ys"
    have "yielded' = yielded @ ?ys" using y by simp
    moreover have "map fst ?ys = filter (open_in store) (q # rest)"
      using m f True by simp
    moreover have "\<forall>(r, x) \<in> set ?ys. store r = Some x \<and> is_open x"
      using a' s o by simp
    ultimately show ?thesis by blast
  qed
qed

lemma open_orders_loop_new:
  assumes "open_orders_loop body refs store new w yielded = Inr (store', new', w', yielded')"
      and "distinct refs"
  shows "new' = map_option (\<lambda>l. l @ filter (open_in store') refs) new"
  using assms
proof (induction refs arbitrary: store new w yielded)
  case Nil
  then show ?case by (cases new) auto
next
  case (Cons q rest)
  from Cons.prems(2) have d: "distinct rest" and nq: "q \<notin> set rest" by auto
  show ?case
  proof (cases "open_in store q")
    case False
    with Cons.prems(1) have run: "open_orders_loop body rest store new w yielded
                            = Inr (store', new', w', yielded')"
      by (auto split: option.splits if_splits)
    have "store' q = store q"
      using open_orders_loop_untouched [OF Cons.prems(1), of q] False by simp
    with False have "\<not> open_in store' q" by simp
    with Cons.IH [OF run d] show ?thesis by simp
  next
    case True
    then obtain ord where s: "store q = Some ord" and o: "is_open ord"
      by (auto split: option.splits)
    with Cons.prems(1) obtain ord2 w2 where
      run: "open_orders_loop body rest (store(q \<mapsto> ord2))
                  (case new of None \<Rightarrow> None
                   | Some l \<Rightarrow> if is_open ord2 then Some (l @ [q]) else Some l)
                  w2 (yielded @ [(q, ord)]) = Inr (store', new', w', yielded')"
      by (auto split: sum.splits)
    have "store' q = (store(q \<mapsto> ord2)) q"
      using open_orders_loop_untouched [OF run, of q] nq by simp
    then have oq: "open_in store' q = is_open ord2" by simp
    from Cons.IH [OF run d] oq show ?thesis by (cases new) simp_all
  qed
qed

lemma open_orders_loop_dom:
  assumes "open_orders_loop body refs store new w yielded = Inr (store', new', w', yielded')"
  shows "dom store' = dom store"
  using assms
proof (induction refs arbitrary: store new w yielded)
  case Nil
  then show ?case by simp
next
  case (Cons q rest)
  show ?case
  proof (cases "open_in store q")
    case False
    with Cons.prems(1) have run: "open_orders_loop body rest store new w yielded
                            = Inr (store', new', w', yielded')"
      by (auto split: option.splits if_splits)
    from Cons.IH [OF run] show ?thesis .
  next
    case True
    then obtain ord where s: "store q = Some ord" and o: "is_open ord"
      by (auto split: option.splits)
    with Cons.prems(1) obtain ord2 w2 where
      run: "open_orders_loop body rest (store(q \<mapsto> ord2))
                  (case new of None \<Rightarrow> None
                   | Some l \<Rightarrow> if is_open ord2 then Some (l @ [q]) else Some l)
                  w2 (yielded @ [(q, ord)]) = Inr (store', new', w', yielded')"
      by (auto split: sum.splits)
    have "dom (store(q \<mapsto> ord2)) = dom store" using s by auto
    with Cons.IH [OF run] show ?thesis by (rule trans)
  qed
qed

lemma add_order_open_orders:
  assumes "add_order idx ord = Inr idx2"
      and "distinct (open_orders idx)"
      and "set (open_orders idx) \<subseteq> dom (orders_by_id idx)"
  shows "open_orders idx2 = open_orders idx @ (if is_open ord then [order_id ord] else [])"
    and "distinct (open_orders idx2)"
    and "set (open_orders idx2) \<subseteq> dom (orders_by_id idx2)"
    and "reindex_every idx2 = reindex_every idx"
  using assms by (auto simp: add_order_def split: if_splits)

lemma get_open_orders_keeps_distinct:
  assumes run: "get_open_orders body idx w = Inr (idx', w', yielded)"
      and d: "distinct (open_orders idx)"
      and sub: "set (open_orders idx) \<subseteq> dom (orders_by_id idx)"
  shows "distinct (open_orders idx')"
    and "set (open_orders idx') \<subseteq> dom (orders_by_id idx')"
    and "reindex_every idx' = reindex_every idx"
proof -
  from run obtain store' new' new where
    loop: "open_orders_loop body (open_orders idx) (orders_by_id idx) new w []
             = Inr (store', new', w', yielded)"
    and idx': "idx' = idx\<lparr>orders_by_id := store',
                         open_orders := (case new' of None \<Rightarrow> open_orders idx | Some l \<Rightarrow> l),
                         reindex_counter := reindex_counter idx + 1\<rparr>"
    and new: "new = None \<or> new = Some []"
    by (auto simp: get_open_orders_def Let_def split: sum.splits)
  have n: "new' = map_option (\<lambda>l. l @ filter (open_in store') (open_orders idx)) new"
    by (rule open_orders_loop_new [OF loop d])
  have dm: "dom store' = dom (orders_by_id idx)"
    by (rule open_orders_loop_dom [OF loop])
  from new n have c: "open_orders idx' = open_orders idx
                    \<or> open_orders idx' = filter (open_in store') (open_orders idx)"
    by (auto simp: idx')
  from c d show "distinct (open_orders idx')" by auto
  have "set (open_orders idx') \<subseteq> set (open_orders idx)" using c by auto
  with sub dm show "set (open_orders idx') \<subseteq> dom (orders_by_id idx')"
    by (simp add: idx')
  show "reindex_every idx' = reindex_every idx" by (simp add: idx')
qed


lemma example_iteration:
  "get_open_orders example_consumer example_index [] =
     Inr (example_index
            \<lparr>orders_by_id := [''o1'' \<mapsto> cancel example_order,
                              ''o2'' \<mapsto> cancel (example_order\<lparr>order_id := ''o2''\<rparr>),
                              ''o3'' \<mapsto> example_order\<lparr>order_id := ''o3''\<rparr>],
             open_orders := [''o3''],
             reindex_counter := 50\<rparr>,
          [''o1'', ''o3''],
          [(''o1'', example_order), (''o3'', example_order\<lparr>order_id := ''o3''\<rparr>)])"
  by (simp add: get_open_orders_def example_index_def example_consumer_def Let_def
        example_order_fields is_open_def cancel_def fun_upd_twist)

section \<open>The claims\<close>

subsection \<open>C8: bid and ask around the last close\<close>

text \<open>
  C8, as the code has it. \<^verbatim>\<open>get_bid_ask\<close> returns \<open>(None, None)\<close> when no bar of the
  pair has been seen, and also when the close of the last bar is zero (the last price
  is tested for truth). Otherwise it returns the last close minus and plus the half
  spread, which is \<open>close * bid_ask_spread / 100 / 2\<close> truncated to the quote precision
  of the pair's \<^verbatim>\<open>PairInfo\<close>, or of the default one.
\<close>

theorem get_bid_ask_spread:
  "get_bid_ask ex p =
     (case last_bars ex p of
        None \<Rightarrow> (None, None)
      | Some b \<Rightarrow>
          if bar_close b = 0 then (None, None)
          else (let half_spread =
                      truncate_decimal (bar_close b * bid_ask_spread ex / 100 / 2)
                        (quote_precision (case pairs_info ex p of
                                            None \<Rightarrow> default_pair_info ex
                                          | Some info \<Rightarrow> info))
                in (Some (bar_close b - half_spread), Some (bar_close b + half_spread))))"
  by (simp add: get_bid_ask_def get_last_price_def get_pair_info_def Let_def split: option.splits)

text \<open>With a last close of 105 and a spread of 0.5 percent the half spread is 0.26.\<close>

theorem get_bid_ask_spread_witness:
  "get_bid_ask (example_exchange_seen (example_bar 100 105)) btc_usdt
     = (Some (10474 / 100), Some (10526 / 100))"
  unfolding get_bid_ask_spread
  by (simp add: ex_defs rounding_defs)

text \<open>
  C8 as stated fails: after a bar that closes at zero, a bar has been seen, and the
  result is not the pair of close minus and plus half spread.
\<close>

theorem get_bid_ask_zero_close_counterexample:
  "last_bars (example_exchange_seen (example_bar 0 0)) btc_usdt = Some (example_bar 0 0)
   \<and> get_bid_ask (example_exchange_seen (example_bar 0 0)) btc_usdt
       \<noteq> (Some (bar_close (example_bar 0 0)
                  - truncate_decimal
                      (bar_close (example_bar 0 0)
                         * bid_ask_spread (example_exchange_seen (example_bar 0 0)) / 100 / 2)
                      (quote_precision (get_pair_info (example_exchange_seen (example_bar 0 0)) btc_usdt))),
            Some (bar_close (example_bar 0 0)
                  + truncate_decimal
                      (bar_close (example_bar 0 0)
                         * bid_ask_spread (example_exchange_seen (example_bar 0 0)) / 100 / 2)
                      (quote_precision (get_pair_info (example_exchange_seen (example_bar 0 0)) btc_usdt))))"
  by (simp add: get_bid_ask_def get_last_price_def ex_defs)

subsection \<open>C10: a last close of zero counts as no price\<close>

text \<open>
  C10. When the most recent bar of a pair closes at zero, \<^verbatim>\<open>get_bid_ask\<close> returns
  \<open>(None, None)\<close>, which is what it returns when the pair has no last bar; and the
  required-balance estimation of any request on that pair gives what it gives when the
  pair has no last bar.
\<close>

theorem zero_close_is_no_price:
  assumes "last_bars ex p = Some b" and "bar_close b = 0"
  shows "get_bid_ask ex p = (None, None)
       \<and> get_bid_ask ex p = get_bid_ask (ex\<lparr>last_bars := (last_bars ex)(p := None)\<rparr>) p
       \<and> (req_pair req = p \<longrightarrow>
            estimate_required_balances ex req
              = estimate_required_balances (ex\<lparr>last_bars := (last_bars ex)(p := None)\<rparr>) req)"
  using assms
  by (simp add: get_bid_ask_def get_last_price_def estimate_required_balances_def Let_def truthy_def
      split: option.splits)

theorem zero_close_is_no_price_witness:
  "last_bars (example_exchange_seen (example_bar 0 0)) btc_usdt = Some (example_bar 0 0)
   \<and> bar_close (example_bar 0 0) = 0
   \<and> get_bid_ask (example_exchange_seen (example_bar 0 0)) btc_usdt = (None, None)
   \<and> estimate_required_balances (example_exchange_seen (example_bar 0 0)) (example_request BUY 10 Market)
       = estimate_required_balances
           ((example_exchange_seen (example_bar 0 0))
              \<lparr>last_bars := (last_bars (example_exchange_seen (example_bar 0 0)))(btc_usdt := None)\<rparr>)
           (example_request BUY 10 Market)"
proof -
  have h1: "last_bars (example_exchange_seen (example_bar 0 0)) btc_usdt = Some (example_bar 0 0)"
    by (simp add: ex_defs)
  have h2: "bar_close (example_bar 0 0) = 0"
    by (simp add: ex_defs)
  have h3: "req_pair (example_request BUY 10 Market) = btc_usdt"
    by (simp add: example_request_def)
  from zero_close_is_no_price [OF h1 h2, of "example_request BUY 10 Market"] h1 h2 h3
  show ?thesis by simp
qed

subsection \<open>C1: the affordability check of the matching loop\<close>

text \<open>
  C1. An order is processed against a bar; the fill computation and the two sanity
  checks pass, and the rounded updates \<open>u\<close> have a base and a quote entry. \<open>f\<close> are
  the rounded fees and \<open>final\<close> the combined map without its zero entries. If for some
  symbol of \<open>final\<close> the available balance plus the hold of this order plus the update
  is negative, the order takes the not-filled path: the liquidity strategy is left as
  it was, \<^verbatim>\<open>amount_filled\<close> is what the fill computation left, and the only calls are
  \<^verbatim>\<open>not_filled\<close> and, when the order closed, \<^verbatim>\<open>order_updated(order, {})\<close>, which moves
  the hold back to available and leaves available plus hold of every symbol the same.
  Otherwise the commit is \<^verbatim>\<open>take_liquidity(|u[base]|)\<close>, \<^verbatim>\<open>add_fill(u, f)\<close> and
  \<^verbatim>\<open>order_updated(order, final)\<close>, in that order. The pair of the order is the pair of
  the bar, as the filter of \<^verbatim>\<open>_process_orders\<close> ensures.
\<close>

theorem process_order_affordability:
  assumes gbu: "get_balance_updates cs ord0 b liq = (u0, ord)"
      and st: "state ord = state ord0"
      and a1: "assert_has_value u0 (base_symbol (order_pair ord))
                 (get_base_sign_for_operation (operation ord)) = None"
      and a2: "assert_has_value u0 (quote_symbol (order_pair ord))
                 (- get_base_sign_for_operation (operation ord)) = None"
      and u: "u = round_balance_updates ex (order_pair ord) u0"
      and pb: "map_of u (base_symbol (order_pair ord)) = Some base_amount"
      and pq: "map_of u (quote_symbol (order_pair ord)) \<noteq> None"
      and f: "f = round_fees ex (order_pair ord) (fee_strategy ex ord u)"
      and final: "final = remove_empty_amounts (add_amounts u f)"
      and pair: "bar_pair b = order_pair ord"
  shows "if (\<exists>sv \<in> set final.
               available (balances ex) (fst sv) + holds (balances ex) (order_id ord) (fst sv)
                 + snd sv < 0)
         then process_order cs ex ord0 b liq =
                Inr (not_filled ord,
                     ex\<lparr>balances := (if is_open (not_filled ord) then balances ex
                                       else order_updated (balances ex) (not_filled ord) []),
                        calls := calls ex @
                          [Call_get_balance_updates (order_id ord), Call_not_filled (order_id ord)]
                          @ (if is_open (not_filled ord) then []
                             else [Call_order_updated (order_id ord) []])\<rparr>,
                     liq)
              \<and> amount_filled (not_filled ord) = amount_filled ord
              \<and> available (if is_open (not_filled ord) then balances ex
                            else order_updated (balances ex) (not_filled ord) []) s
                  + holds (if is_open (not_filled ord) then balances ex
                           else order_updated (balances ex) (not_filled ord) []) (order_id ord) s
                  = available (balances ex) s + holds (balances ex) (order_id ord) s
         else (\<exists>ord'. add_fill ord u f = Inr ord'
                \<and> amount_filled ord' = amount_filled ord + \<bar>base_amount\<bar>
                \<and> process_order cs ex ord0 b liq =
                    Inr (ord',
                         ex\<lparr>balances := order_updated (balances ex) ord' final,
                            calls := calls ex @
                              [Call_get_balance_updates (order_id ord),
                               Call_take_liquidity \<bar>base_amount\<bar>,
                               Call_add_fill (order_id ord') u f,
                               Call_order_updated (order_id ord') final]\<rparr>,
                         take_liquidity cs \<bar>base_amount\<bar> liq))"
proof -
  note po = process_order_checked [OF gbu st a1 a2, of ex]
  from pq obtain quote_amount where pq2: "map_of u (quote_symbol (order_pair ord)) = Some quote_amount"
    by auto
  show ?thesis
  proof (cases "balances_short (balances ex) (order_id ord) final")
    case True
    then have short: "\<exists>sv \<in> set final.
        available (balances ex) (fst sv) + holds (balances ex) (order_id ord) (fst sv) + snd sv < 0"
      by (simp add: balances_short_iff)
    have tot: "available (order_updated (balances ex) (not_filled ord) []) s
                 + holds (order_updated (balances ex) (not_filled ord) []) (order_id ord) s
               = available (balances ex) s + holds (balances ex) (order_id ord) s"
      using order_updated_empty_total [of "balances ex" "not_filled ord" s] by simp
    have "process_order cs ex ord0 b liq =
            Inr (not_filled ord,
                 ex\<lparr>balances := (if is_open (not_filled ord) then balances ex
                                   else order_updated (balances ex) (not_filled ord) []),
                    calls := calls ex @
                      [Call_get_balance_updates (order_id ord), Call_not_filled (order_id ord)]
                      @ (if is_open (not_filled ord) then []
                         else [Call_order_updated (order_id ord) []])\<rparr>,
                 liq)"
      unfolding po using pb pq2 True
      by (simp add: Let_def order_not_filled_eq log_call_def u [symmetric] f [symmetric]
          final [symmetric])
    then show ?thesis using short tot by simp
  next
    case False
    then have nshort: "\<not> (\<exists>sv \<in> set final.
        available (balances ex) (fst sv) + holds (balances ex) (order_id ord) (fst sv) + snd sv < 0)"
      by (simp add: balances_short_iff)
    define ord' where "ord' = ord\<lparr>amount_filled := amount_filled ord + \<bar>base_amount\<bar>,
                       fees := add_amounts (fees ord) f,
                       state := (if amount_filled ord + \<bar>base_amount\<bar> = amount ord
                                 then COMPLETED else state ord)\<rparr>"
    have af: "add_fill ord u f = Inr ord'"
      using pb by (simp add: add_fill_def Let_def ord'_def)
    have af': "add_fill ord (round_balance_updates ex (order_pair ord) u0)
                 (round_fees ex (order_pair ord)
                    (fee_strategy ex ord (round_balance_updates ex (order_pair ord) u0))) = Inr ord'"
      using af u f by simp
    have "process_order cs ex ord0 b liq =
            Inr (ord',
                 ex\<lparr>balances := order_updated (balances ex) ord' final,
                    calls := calls ex @
                      [Call_get_balance_updates (order_id ord),
                       Call_take_liquidity \<bar>base_amount\<bar>,
                       Call_add_fill (order_id ord') u f,
                       Call_order_updated (order_id ord') final]\<rparr>,
                 take_liquidity cs \<bar>base_amount\<bar> liq)"
      unfolding po using pb pq2 False af
      by (simp add: Let_def pair u [symmetric] f [symmetric] final [symmetric])
    moreover have "amount_filled ord' = amount_filled ord + \<bar>base_amount\<bar>"
      by (simp add: ord'_def)
    ultimately show ?thesis using nshort af by auto
  qed
qed

text \<open>
  The held order against a bar that opens at 2000 is short of USDT and is cancelled,
  its hold released; against a bar that opens at 100 it is filled whole.
\<close>

theorem process_order_affordability_witness:
  "(case process_order example_collaborators example_exchange_holding example_order
           (example_bar 2000 2000) (1, 250) of
      Inl e \<Rightarrow> False
    | Inr (ord', ex', liq') \<Rightarrow>
        state ord' = CANCELED \<and> amount_filled ord' = 0 \<and> liq' = (1, 250)
        \<and> calls ex' = [Call_get_balance_updates ''o1'', Call_not_filled ''o1'',
                       Call_order_updated ''o1'' []]
        \<and> available (balances ex') ''USDT'' = 10000
        \<and> holds (balances ex') ''o1'' ''USDT'' = 0)
   \<and> (case process_order example_collaborators example_exchange_holding example_order
           (example_bar 100 100) (1, 250) of
      Inl e \<Rightarrow> False
    | Inr (ord', ex', liq') \<Rightarrow>
        state ord' = COMPLETED \<and> amount_filled ord' = 10 \<and> liq' = (1, 240)
        \<and> calls ex' = [Call_get_balance_updates ''o1'', Call_take_liquidity 10,
                       Call_add_fill ''o1'' [(''BTC'', 10), (''USDT'', - 1000)] [(''USDT'', - 10)],
                       Call_order_updated ''o1'' [(''BTC'', 10), (''USDT'', - 1010)]]
        \<and> available (balances ex') ''USDT'' = 8990
        \<and> available (balances ex') ''BTC'' = 10
        \<and> holds (balances ex') ''o1'' ''USDT'' = 0)"
proof -
  have a1: "assert_has_value [(''BTC'', 10), (''USDT'', x)]
              (base_symbol (order_pair example_order))
              (get_base_sign_for_operation (operation example_order)) = None" for x :: decimal
    by (simp add: assert_has_value_def get_sign_def get_base_sign_for_operation_def)
  have a2: "x < 0 \<Longrightarrow> assert_has_value [(''BTC'', 10), (''USDT'', x)]
              (quote_symbol (order_pair example_order))
              (- get_base_sign_for_operation (operation example_order)) = None" for x :: decimal
    by (simp add: assert_has_value_def get_sign_def get_base_sign_for_operation_def)
  have u: "[(''BTC'', 10), (''USDT'', - 20000)] =
             round_balance_updates example_exchange_holding (order_pair example_order)
               [(''BTC'', 10), (''USDT'', - 20000)]"
          "[(''BTC'', 10), (''USDT'', - 1000)] =
             round_balance_updates example_exchange_holding (order_pair example_order)
               [(''BTC'', 10), (''USDT'', - 1000)]"
    by (simp_all add: example_round_updates)
  have pb: "map_of [(''BTC'', 10), (''USDT'', x)] (base_symbol (order_pair example_order)) = Some 10"
    for x :: decimal by simp
  have pq: "map_of [(''BTC'', 10), (''USDT'', x)] (quote_symbol (order_pair example_order)) \<noteq> None"
    for x :: decimal by simp
  have f: "[(''USDT'', - 200)] =
             round_fees example_exchange_holding (order_pair example_order)
               (fee_strategy example_exchange_holding example_order [(''BTC'', 10), (''USDT'', - 20000)])"
          "[(''USDT'', - 10)] =
             round_fees example_exchange_holding (order_pair example_order)
               (fee_strategy example_exchange_holding example_order [(''BTC'', 10), (''USDT'', - 1000)])"
    by (simp_all add: example_round_fees)
  have final: "[(''BTC'', 10), (''USDT'', - 20200)] =
      remove_empty_amounts (add_amounts [(''BTC'', 10), (''USDT'', - 20000)] [(''USDT'', - 200)])"
     "[(''BTC'', 10), (''USDT'', - 1010)] =
      remove_empty_amounts (add_amounts [(''BTC'', 10), (''USDT'', - 1000)] [(''USDT'', - 10)])"
    by (simp_all add: example_final)
  have pair: "bar_pair (example_bar x y) = order_pair example_order" for x y
    by simp
  have nf: "not_filled example_order = example_order\<lparr>state := CANCELED\<rparr>"
    by (simp add: not_filled_def cancel_def)
  have short: "case process_order example_collaborators example_exchange_holding example_order
           (example_bar 2000 2000) (1, 250) of
      Inl e \<Rightarrow> False
    | Inr (ord', ex', liq') \<Rightarrow>
        state ord' = CANCELED \<and> amount_filled ord' = 0 \<and> liq' = (1, 250)
        \<and> calls ex' = [Call_get_balance_updates ''o1'', Call_not_filled ''o1'',
                       Call_order_updated ''o1'' []]
        \<and> available (balances ex') ''USDT'' = 10000
        \<and> holds (balances ex') ''o1'' ''USDT'' = 0"
    using process_order_affordability
            [OF example_fill_eval(1) refl a1 a2 u(1) pb pq f(1) final(1) pair, of "''USDT''"]
    by (simp add: nf is_open_def order_updated_def release_holds_def Let_def)
  have add: "add_fill example_order [(''BTC'', 10), (''USDT'', - 1000)] [(''USDT'', - 10)]
             = Inr (example_order\<lparr>amount_filled := 10, fees := [(''USDT'', - 10)],
                                  state := COMPLETED\<rparr>)"
    by (simp add: add_fill_def add_amounts_def get_amount_def)
  have commit: "case process_order example_collaborators example_exchange_holding example_order
           (example_bar 100 100) (1, 250) of
      Inl e \<Rightarrow> False
    | Inr (ord', ex', liq') \<Rightarrow>
        state ord' = COMPLETED \<and> amount_filled ord' = 10 \<and> liq' = (1, 240)
        \<and> calls ex' = [Call_get_balance_updates ''o1'', Call_take_liquidity 10,
                       Call_add_fill ''o1'' [(''BTC'', 10), (''USDT'', - 1000)] [(''USDT'', - 10)],
                       Call_order_updated ''o1'' [(''BTC'', 10), (''USDT'', - 1010)]]
        \<and> available (balances ex') ''USDT'' = 8990
        \<and> available (balances ex') ''BTC'' = 10
        \<and> holds (balances ex') ''o1'' ''USDT'' = 0"
    using process_order_affordability
            [OF example_fill_eval(2) refl a1 a2 u(2) pb pq f(2) final(2) pair, of "''USDT''"]
    by (simp add: add is_open_def order_updated_def release_holds_def apply_delta_def
        example_collaborators_def Let_def)
  show ?thesis using short commit by simp
qed

subsection \<open>C3: rounding of balance updates and fees\<close>

text \<open>
  C3. For a pair of two different symbols and well-formed dictionaries:
  \<^verbatim>\<open>_round_balance_updates\<close> truncates the base entry toward zero to the base
  precision, rounds the quote entry half-even to the quote precision, leaves any other
  entry as it is, and drops every entry that is then zero; \<^verbatim>\<open>_round_fees\<close> rounds
  a fee in the base or the quote symbol with ROUND_UP to the precision of that symbol,
  leaves a fee in any other symbol unrounded, and drops zero fees; and when, in
  \<^verbatim>\<open>_process_order\<close>, the base or the quote entry is absent after rounding, the order
  takes the not-filled path (no liquidity taken, no fill, only \<^verbatim>\<open>not_filled\<close> and the
  release of the hold of an order that closed).
\<close>

theorem rounding_discipline:
  assumes neq: "base_symbol p \<noteq> quote_symbol p"
      and du: "distinct (map fst u)"
      and df: "distinct (map fst f)"
      and gbu: "get_balance_updates cs ord0 b liq = (u0, ord)"
      and st: "state ord = state ord0"
      and a1: "assert_has_value u0 (base_symbol (order_pair ord))
                 (get_base_sign_for_operation (operation ord)) = None"
      and a2: "assert_has_value u0 (quote_symbol (order_pair ord))
                 (- get_base_sign_for_operation (operation ord)) = None"
  shows "map_of (round_balance_updates ex p u) s =
           (case map_of u s of
              None \<Rightarrow> None
            | Some v \<Rightarrow>
                (let v' = (if s = base_symbol p then
                             truncate_decimal v (base_precision (get_pair_info ex p))
                           else if s = quote_symbol p then
                             round_decimal v (quote_precision (get_pair_info ex p)) ROUND_HALF_EVEN
                           else v)
                 in if v' = 0 then None else Some v'))
       \<and> map_of (round_fees ex p f) s =
           (case map_of f s of
              None \<Rightarrow> None
            | Some a \<Rightarrow>
                (let a' = (if s = base_symbol p then
                             round_decimal a (base_precision (get_pair_info ex p)) ROUND_UP
                           else if s = quote_symbol p then
                             round_decimal a (quote_precision (get_pair_info ex p)) ROUND_UP
                           else a)
                 in if a' = 0 then None else Some a'))
       \<and> (map_of (round_balance_updates ex (order_pair ord) u0) (base_symbol (order_pair ord)) = None
            \<or> map_of (round_balance_updates ex (order_pair ord) u0) (quote_symbol (order_pair ord)) = None
          \<longrightarrow> process_order cs ex ord0 b liq =
                Inr (not_filled ord,
                     ex\<lparr>balances := (if is_open (not_filled ord) then balances ex
                                       else order_updated (balances ex) (not_filled ord) []),
                        calls := calls ex @
                          [Call_get_balance_updates (order_id ord), Call_not_filled (order_id ord)]
                          @ (if is_open (not_filled ord) then []
                             else [Call_order_updated (order_id ord) []])\<rparr>,
                     liq))"
proof (intro conjI impI)
  show "map_of (round_balance_updates ex p u) s =
           (case map_of u s of
              None \<Rightarrow> None
            | Some v \<Rightarrow>
                (let v' = (if s = base_symbol p then
                             truncate_decimal v (base_precision (get_pair_info ex p))
                           else if s = quote_symbol p then
                             round_decimal v (quote_precision (get_pair_info ex p)) ROUND_HALF_EVEN
                           else v)
                 in if v' = 0 then None else Some v'))"
    by (rule map_of_round_balance_updates [OF neq du])
next
  show "map_of (round_fees ex p f) s =
           (case map_of f s of
              None \<Rightarrow> None
            | Some a \<Rightarrow>
                (let a' = (if s = base_symbol p then
                             round_decimal a (base_precision (get_pair_info ex p)) ROUND_UP
                           else if s = quote_symbol p then
                             round_decimal a (quote_precision (get_pair_info ex p)) ROUND_UP
                           else a)
                 in if a' = 0 then None else Some a'))"
    by (rule map_of_round_fees [OF neq df])
next
  assume gone: "map_of (round_balance_updates ex (order_pair ord) u0) (base_symbol (order_pair ord)) = None
            \<or> map_of (round_balance_updates ex (order_pair ord) u0) (quote_symbol (order_pair ord)) = None"
  show "process_order cs ex ord0 b liq =
                Inr (not_filled ord,
                     ex\<lparr>balances := (if is_open (not_filled ord) then balances ex
                                       else order_updated (balances ex) (not_filled ord) []),
                        calls := calls ex @
                          [Call_get_balance_updates (order_id ord), Call_not_filled (order_id ord)]
                          @ (if is_open (not_filled ord) then []
                             else [Call_order_updated (order_id ord) []])\<rparr>,
                     liq)"
    unfolding process_order_checked [OF gbu st a1 a2, of ex]
    using gone by (auto simp: Let_def order_not_filled_eq log_call_def)
qed

text \<open>
  With precisions 8 and 2: 0.123456789 BTC is truncated to 0.12345678, -12.345 USDT is
  rounded half-even to -12.34, a zero entry is dropped; a fee of -1.001 USDT is rounded
  up to -1.01 and a fee of 1/3 BNB is left as it is; an order for 0.000000004 BTC
  rounds to nothing and is not filled.
\<close>

theorem rounding_discipline_witness:
  "map_of (round_balance_updates example_exchange_holding btc_usdt
             [(''BTC'', 123456789 / 10 ^ 9), (''USDT'', - 12345 / 1000), (''ETH'', 0)]) ''BTC''
     = Some (12345678 / 10 ^ 8)
   \<and> map_of (round_balance_updates example_exchange_holding btc_usdt
             [(''BTC'', 123456789 / 10 ^ 9), (''USDT'', - 12345 / 1000), (''ETH'', 0)]) ''USDT''
     = Some (- 1234 / 100)
   \<and> map_of (round_balance_updates example_exchange_holding btc_usdt
             [(''BTC'', 123456789 / 10 ^ 9), (''USDT'', - 12345 / 1000), (''ETH'', 0)]) ''ETH''
     = None
   \<and> map_of (round_fees example_exchange_holding btc_usdt
             [(''USDT'', - 1001 / 1000), (''BNB'', 1 / 3)]) ''USDT'' = Some (- 101 / 100)
   \<and> map_of (round_fees example_exchange_holding btc_usdt
             [(''USDT'', - 1001 / 1000), (''BNB'', 1 / 3)]) ''BNB'' = Some (1 / 3)
   \<and> (case process_order example_collaborators example_exchange_holding tiny_order
              (example_bar 100 100) (1, 250) of
         Inl e \<Rightarrow> False
       | Inr (ord', ex', liq') \<Rightarrow>
           state ord' = OPEN \<and> amount_filled ord' = 0 \<and> liq' = (1, 250)
           \<and> calls ex' = [Call_get_balance_updates ''o2'', Call_not_filled ''o2'']
           \<and> balances ex' = balances example_exchange_holding)"
proof -
  let ?u = "[(''BTC'', 123456789 / 10 ^ 9), (''USDT'', - 12345 / 1000), (''ETH'', 0 :: decimal)]"
  let ?f = "[(''USDT'', - 1001 / 1000), (''BNB'', 1 / 3 :: decimal)]"
  let ?raw = "[(''BTC'', 4 / 10 ^ 9), (''USDT'', - (4 / 10 ^ 7) :: decimal)]"
  have neq: "base_symbol btc_usdt \<noteq> quote_symbol btc_usdt" by simp
  have du: "distinct (map fst ?u)" by simp
  have df: "distinct (map fst ?f)" by simp
  have gbu: "get_balance_updates example_collaborators tiny_order (example_bar 100 100) (1, 250)
               = (?raw, tiny_order)"
    by (simp add: example_collaborators_def example_fill_def get_base_sign_for_operation_def Let_def)
  have a1: "assert_has_value ?raw (base_symbol (order_pair tiny_order))
              (get_base_sign_for_operation (operation tiny_order)) = None"
    by (simp add: assert_has_value_def get_sign_def get_base_sign_for_operation_def)
  have a2: "assert_has_value ?raw (quote_symbol (order_pair tiny_order))
              (- get_base_sign_for_operation (operation tiny_order)) = None"
    by (simp add: assert_has_value_def get_sign_def get_base_sign_for_operation_def)
  note th = rounding_discipline [OF neq du df gbu refl a1 a2, of example_exchange_holding]
  have gone: "map_of (round_balance_updates example_exchange_holding (order_pair tiny_order) ?raw)
                (base_symbol (order_pair tiny_order)) = None"
    by (simp add: round_balance_updates_def rounding_defs remove_empty_amounts_def)
  have nf: "not_filled tiny_order = tiny_order"
    by (simp add: not_filled_def)
  show ?thesis
    using th [of "''BTC''"] th [of "''USDT''"] th [of "''ETH''"] th [of "''BNB''"] gone
    by (simp add: rounding_defs nf is_open_def)
qed

subsection \<open>C4: estimation of the required balances\<close>

text \<open>
  C4. For a request on a pair of two different symbols. The price is the estimated fill
  price of the request when that is true, else the close of the last bar of the pair.
  The estimated updates \<open>raw\<close> hold the base component \<open>amount * sign\<close> and, when the
  price is true, the quote component \<open>amount * price * - sign\<close>. They are rounded to
  \<open>est\<close>. Fees are computed, on the order the request creates under the id
  \<^verbatim>\<open>"temporary"\<close>, exactly when \<open>est\<close> has both the base and the quote entry, and are
  rounded; otherwise there are none. The required balances are the negated strictly
  negative entries of the sum of \<open>est\<close> and the fees, and nothing else.
\<close>

theorem estimate_required_balances_spec:
  fixes ex :: "'l exchange" and req :: order_request
  defines "p \<equiv> req_pair req"
      and "sign \<equiv> get_base_sign_for_operation (req_operation req)"
      and "price \<equiv> (if truthy (get_estimated_fill_price req) then get_estimated_fill_price req
                     else get_last_price ex (req_pair req))"
  defines "raw \<equiv> (base_symbol p, req_amount req * sign)
                   # (case price of
                        None \<Rightarrow> []
                      | Some pr \<Rightarrow> if pr \<noteq> 0 then [(quote_symbol p, req_amount req * pr * - sign)]
                                   else [])"
  defines "est \<equiv> round_balance_updates ex p raw"
  defines "fs \<equiv> (if map_of est (base_symbol p) \<noteq> None \<and> map_of est (quote_symbol p) \<noteq> None
                  then round_fees ex p (fee_strategy ex (request_create_order req ''temporary'') est)
                  else [])"
  defines "combined \<equiv> add_amounts est fs"
  assumes neq: "base_symbol (req_pair req) \<noteq> quote_symbol (req_pair req)"
  shows "estimate_required_balances ex req
           = map (\<lambda>(symbol, a). (symbol, - a)) (filter (\<lambda>(symbol, a). a < 0) combined)
       \<and> map_of (estimate_required_balances ex req) s
           = (case map_of combined s of None \<Rightarrow> None | Some a \<Rightarrow> if a < 0 then Some (- a) else None)
       \<and> order_id (request_create_order req ''temporary'') = ''temporary''"
proof -
  define raw' where "raw' = (case price of
               None \<Rightarrow> [(base_symbol p, req_amount req * sign)]
             | Some pr \<Rightarrow>
                 if pr \<noteq> 0 then
                   AList.update (quote_symbol p)
                     (req_amount req * pr * - sign) [(base_symbol p, req_amount req * sign)]
                 else [(base_symbol p, req_amount req * sign)])"
  have raw_eq: "raw' = raw"
    using neq by (auto simp: raw'_def raw_def p_def split: option.splits)
  have keys: "set (map fst raw) \<subseteq> {base_symbol p, quote_symbol p}"
    by (auto simp: raw_def split: option.splits if_splits)
  have draw: "distinct (map fst raw)"
    using neq by (auto simp: raw_def p_def split: option.splits)
  have dest: "distinct (map fst est)"
    unfolding est_def by (rule distinct_round_balance_updates [OF draw])
  have kest: "set (map fst est) \<subseteq> {base_symbol p, quote_symbol p}"
    unfolding est_def using keys_round_balance_updates [of ex p raw] keys by blast
  have len: "length est = 2 \<longleftrightarrow>
               map_of est (base_symbol p) \<noteq> None \<and> map_of est (quote_symbol p) \<noteq> None"
    using length_two_iff [OF dest kest] neq by (simp add: p_def)
  have unfold: "estimate_required_balances ex req
           = map (\<lambda>(symbol, a). (symbol, - a)) (filter (\<lambda>(symbol, a). a < 0) combined)"
    unfolding estimate_required_balances_def Let_def combined_def fs_def len [symmetric]
    unfolding est_def raw_eq [symmetric] raw'_def price_def sign_def p_def
    by simp
  have look: "map_of (estimate_required_balances ex req) s
           = (case map_of combined s of None \<Rightarrow> None | Some a \<Rightarrow> if a < 0 then Some (- a) else None)"
    unfolding unfold combined_def
    by (rule map_of_negated_negatives [OF distinct_add_amounts])
  show ?thesis
    using unfold look by (simp add: request_create_order_def)
qed

text \<open>
  Buying 10 BTC at the market after a close of 100 requires 1010 USDT (1000 and a fee
  of 10); selling 10 BTC at the market with no bar seen requires the 10 BTC only.
\<close>

theorem estimate_required_balances_spec_witness:
  "base_symbol (req_pair (example_request BUY 10 Market))
     \<noteq> quote_symbol (req_pair (example_request BUY 10 Market))
   \<and> estimate_required_balances (example_exchange_seen (example_bar 100 100))
        (example_request BUY 10 Market) = [(''USDT'', 1010)]
   \<and> map_of (estimate_required_balances (example_exchange_seen (example_bar 100 100))
        (example_request BUY 10 Market)) ''USDT'' = Some 1010
   \<and> map_of (estimate_required_balances example_exchange (example_request SELL 10 Market)) ''BTC''
        = Some 10
   \<and> map_of (estimate_required_balances example_exchange (example_request SELL 10 Market)) ''USDT''
        = None"
proof -
  have p: "req_pair (example_request op a k) = btc_usdt" for op a k
    by (simp add: example_request_def)
  have fields: "req_amount (example_request op a k) = a" "req_operation (example_request op a k) = op"
    "req_kind (example_request op a k) = k" for op a k
    by (simp_all add: example_request_def)
  have neq: "base_symbol (req_pair (example_request op a k))
              \<noteq> quote_symbol (req_pair (example_request op a k))" for op a k
    by (simp add: p)
  have lp: "get_last_price (example_exchange_seen (example_bar 100 100)) btc_usdt = Some 100"
           "get_last_price example_exchange btc_usdt = None"
    by (simp_all add: get_last_price_def ex_defs)
  have gi: "get_pair_info example_exchange btc_usdt = \<lparr>base_precision = 8, quote_precision = 2\<rparr>"
    by (simp add: get_pair_info_def ex_defs)
  have r: "round_balance_updates (example_exchange_seen (example_bar 100 100)) btc_usdt
             [(''BTC'', 10), (''USDT'', - 1000)] = [(''BTC'', 10), (''USDT'', - 1000)]"
          "round_balance_updates example_exchange btc_usdt [(''BTC'', - 10)] = [(''BTC'', - 10)]"
    by (simp_all add: round_balance_updates_def rounding_defs remove_empty_amounts_def gi)
  have fe: "fee_strategy (example_exchange_seen (example_bar 100 100)) = example_fee"
    by (simp add: ex_defs)
  have f: "round_fees (example_exchange_seen (example_bar 100 100)) btc_usdt [(''USDT'', - 10)]
            = [(''USDT'', - 10)]"
    by (simp add: round_fees_def round_fee_def rounding_defs remove_empty_amounts_def)
  have buy: "estimate_required_balances (example_exchange_seen (example_bar 100 100))
        (example_request BUY 10 Market) = [(''USDT'', 1010)]
     \<and> map_of (estimate_required_balances (example_exchange_seen (example_bar 100 100))
        (example_request BUY 10 Market)) ''USDT'' = Some 1010"
    using estimate_required_balances_spec
            [OF neq [of BUY 10 Market], where ex = "example_exchange_seen (example_bar 100 100)"
               and s = "''USDT''"]
    by (simp add: p fields lp r fe f get_estimated_fill_price_def truthy_def
        get_base_sign_for_operation_def example_fee_def request_create_order_def get_amount_def
        add_amounts_def)
  have sell: "map_of (estimate_required_balances example_exchange (example_request SELL 10 Market)) s
        = (if s = ''BTC'' then Some 10 else None)" for s
    using estimate_required_balances_spec
            [OF neq [of SELL 10 Market], where ex = example_exchange and s = s]
    by (simp add: p fields lp r get_estimated_fill_price_def truthy_def
        get_base_sign_for_operation_def get_amount_def add_amounts_def)
  show ?thesis
    using buy sell [of "''BTC''"] sell [of "''USDT''"] neq by simp
qed

subsection \<open>C6: insufficient balance at submission\<close>

text \<open>
  C6, in two parts. First, for a request that passes validation: if some required
  symbol has less available than required, \<^verbatim>\<open>create_order\<close> raises the
  insufficient-balance error, which names such a symbol, the amount required and the
  amount available, and the exchange is left as it was. Second, with no condition on
  the request, the validator or the balances: whenever \<^verbatim>\<open>create_order\<close> raises a
  validation error or an insufficient-balance error, the exchange is left as it was:
  no order is added and no balance is held.
\<close>

theorem create_order_insufficient_balance:
  "(validate cs req (get_pair_info ex (req_pair req)) = None
      \<and> (\<exists>sr \<in> set (estimate_required_balances ex req).
             available (balances ex) (fst sr) < snd sr)
    \<longrightarrow> (\<exists>s r. (s, r) \<in> set (estimate_required_balances ex req)
            \<and> available (balances ex) s < r
            \<and> create_order cs ex req uid
                = (Inl (Error_not_enough s r (available (balances ex) s)), ex)))
   \<and> (\<forall>req' uid' e.
         fst (create_order cs ex req' uid') = Inl e
         \<and> ((\<exists>m. e = Error_validation m) \<or> (\<exists>s r a. e = Error_not_enough s r a))
         \<longrightarrow> snd (create_order cs ex req' uid') = ex)"
proof (intro conjI allI impI)
  assume hyp: "validate cs req (get_pair_info ex (req_pair req)) = None
      \<and> (\<exists>sr \<in> set (estimate_required_balances ex req).
             available (balances ex) (fst sr) < snd sr)"
  then have valid: "validate cs req (get_pair_info ex (req_pair req)) = None"
    and short: "\<exists>sr \<in> set (estimate_required_balances ex req).
                     available (balances ex) (fst sr) < snd sr"
    by simp_all
  have pos: "\<forall>sr \<in> set (estimate_required_balances ex req). 0 < snd sr"
    using estimate_required_positive by fastforce
  from check_available_balance_short [OF pos short] obtain s r where
    sr: "(s, r) \<in> set (estimate_required_balances ex req)" "available (balances ex) s < r"
    and c: "check_available_balance (balances ex) (estimate_required_balances ex req)
              = Some (Error_not_enough s r (available (balances ex) s))"
    by blast
  have "create_order cs ex req uid = (Inl (Error_not_enough s r (available (balances ex) s)), ex)"
    by (simp add: create_order_def Let_def valid c)
  with sr show "\<exists>s r. (s, r) \<in> set (estimate_required_balances ex req)
            \<and> available (balances ex) s < r
            \<and> create_order cs ex req uid
                = (Inl (Error_not_enough s r (available (balances ex) s)), ex)"
    by blast
next
  fix req' uid' e
  assume a: "fst (create_order cs ex req' uid') = Inl e
             \<and> ((\<exists>m. e = Error_validation m) \<or> (\<exists>s r a. e = Error_not_enough s r a))"
  then have userv: "\<not> (\<exists>m. e = AssertionError m)" by auto
  show "snd (create_order cs ex req' uid') = ex"
  proof (cases "validate cs req' (get_pair_info ex (req_pair req'))")
    case (Some m)
    then show ?thesis by (simp add: create_order_def Let_def)
  next
    case None
    show ?thesis
    proof (cases "check_available_balance (balances ex) (estimate_required_balances ex req')")
      case (Some e')
      with None show ?thesis by (simp add: create_order_def Let_def)
    next
      case cNone: None
      show ?thesis
      proof (cases "add_order (orders ex) (request_create_order req' uid')")
        case (Inl e')
        with None cNone show ?thesis by (simp add: create_order_def Let_def)
      next
        case (Inr idx)
        show ?thesis
        proof (cases "order_accepted (balances ex) (request_create_order req' uid')
                        (estimate_required_balances ex req')")
          case (Inl e')
          with None cNone Inr a have "e = e'" by (simp add: create_order_def Let_def)
          moreover from Inl have "\<exists>m. e' = AssertionError m"
            by (auto simp: order_accepted_def dest: hold_required_error)
          ultimately show ?thesis using userv by blast
        next
          case (Inr bal)
          with None cNone \<open>add_order (orders ex) (request_create_order req' uid') = Inr idx\<close> a
          show ?thesis by (simp add: create_order_def Let_def)
        qed
      qed
    qed
  qed
qed

text \<open>
  With 10000 USDT, buying 1000 BTC at the market after a close of 100 requires 101000
  USDT and is refused; a request for an amount of zero fails validation.
\<close>

theorem create_order_insufficient_balance_witness:
  "validate example_collaborators (example_request BUY 1000 Market)
     (get_pair_info (example_exchange_seen (example_bar 100 100))
        (req_pair (example_request BUY 1000 Market))) = None
   \<and> available (balances (example_exchange_seen (example_bar 100 100))) ''USDT'' < 101000
   \<and> create_order example_collaborators (example_exchange_seen (example_bar 100 100))
        (example_request BUY 1000 Market) ''o9''
       = (Inl (Error_not_enough ''USDT'' 101000 10000), example_exchange_seen (example_bar 100 100))
   \<and> fst (create_order example_collaborators (example_exchange_seen (example_bar 100 100))
        (example_request BUY 0 Market) ''o9'') = Inl (Error_validation ''amount'')
   \<and> snd (create_order example_collaborators (example_exchange_seen (example_bar 100 100))
        (example_request BUY 0 Market) ''o9'') = example_exchange_seen (example_bar 100 100)"
proof -
  let ?E = "example_exchange_seen (example_bar 100 100)"
  have valid: "validate example_collaborators (example_request BUY 1000 Market)
                 (get_pair_info ?E (req_pair (example_request BUY 1000 Market))) = None"
    by (simp add: example_collaborators_def example_request_def)
  have av: "available (balances ?E) ''USDT'' = 10000"
    by (simp add: ex_defs get_amount_def)
  have short: "\<exists>sr \<in> set (estimate_required_balances ?E (example_request BUY 1000 Market)).
                  available (balances ?E) (fst sr) < snd sr"
    by (simp add: example_estimate_1000 av)
  note th = create_order_insufficient_balance
              [of example_collaborators "example_request BUY 1000 Market" ?E "''o9''"]
  from th valid short obtain s r where
    sr: "(s, r) \<in> set (estimate_required_balances ?E (example_request BUY 1000 Market))"
    and c: "create_order example_collaborators ?E (example_request BUY 1000 Market) ''o9''
             = (Inl (Error_not_enough s r (available (balances ?E) s)), ?E)"
    by blast
  from sr have "s = ''USDT''" "r = 101000" by (simp_all add: example_estimate_1000)
  with c av have c': "create_order example_collaborators ?E (example_request BUY 1000 Market) ''o9''
             = (Inl (Error_not_enough ''USDT'' 101000 10000), ?E)"
    by simp
  have v0: "fst (create_order example_collaborators ?E (example_request BUY 0 Market) ''o9'')
             = Inl (Error_validation ''amount'')"
    by (simp add: create_order_def example_collaborators_def example_request_def)
  from th v0 have "snd (create_order example_collaborators ?E (example_request BUY 0 Market) ''o9'') = ?E"
    by blast
  with valid av c' v0 show ?thesis by simp
qed

subsection \<open>C7: cancelling an order\<close>

text \<open>
  C7. \<^verbatim>\<open>cancel_order(id)\<close> raises the not-found error for an unknown id and the
  illegal-state error for an order that is not open, and leaves the exchange as it was.
  For an open order it returns the id, the order of the index is CANCELED, the ledger
  is \<^verbatim>\<open>order_updated(order, {})\<close> for the cancelled order, which leaves no hold of
  that order and returns what was held to available, and a second
  \<^verbatim>\<open>cancel_order(id)\<close> raises the illegal-state error.
\<close>

theorem cancel_order_spec:
  "case get_order (orders ex) ident of
     None \<Rightarrow> cancel_order ex ident = (Inl Error_order_not_found, ex)
   | Some ord \<Rightarrow>
       if \<not> is_open ord then
         cancel_order ex ident = (Inl (Error_not_open ident (state ord)), ex)
       else
         (\<exists>ex'. cancel_order ex ident = (Inr ident, ex')
            \<and> get_order (orders ex') ident = Some (ord\<lparr>state := CANCELED\<rparr>)
            \<and> balances ex' = order_updated (balances ex) (ord\<lparr>state := CANCELED\<rparr>) []
            \<and> holds (balances ex') (order_id ord) s = 0
            \<and> available (balances ex') s
                = available (balances ex) s + holds (balances ex) (order_id ord) s
            \<and> cancel_order ex' ident = (Inl (Error_not_open ident CANCELED), ex'))"
  by (auto simp: cancel_order_def get_order_def Let_def cancel_def is_open_def order_updated_def
      release_holds_def split: option.splits)

text \<open>Cancelling the held order gives the 1010 USDT back; cancelling it again is an error.\<close>

theorem cancel_order_spec_witness:
  "fst (cancel_order example_exchange_holding ''o1'') = Inr ''o1''
   \<and> available (balances (snd (cancel_order example_exchange_holding ''o1''))) ''USDT'' = 10000
   \<and> holds (balances (snd (cancel_order example_exchange_holding ''o1''))) ''o1'' ''USDT'' = 0
   \<and> get_order (orders (snd (cancel_order example_exchange_holding ''o1''))) ''o1''
       = Some (example_order\<lparr>state := CANCELED\<rparr>)
   \<and> fst (cancel_order (snd (cancel_order example_exchange_holding ''o1'')) ''o1'')
       = Inl (Error_not_open ''o1'' CANCELED)
   \<and> fst (cancel_order example_exchange_holding ''o7'') = Inl Error_order_not_found"
proof -
  have g: "get_order (orders example_exchange_holding) ''o1'' = Some example_order"
    by (simp add: get_order_def example_holding_eq)
  have g7: "get_order (orders example_exchange_holding) ''o7'' = None"
    by (simp add: get_order_def example_holding_eq)
  from cancel_order_spec [of example_exchange_holding "''o1''" "''USDT''"]
  have a: "fst (cancel_order example_exchange_holding ''o1'') = Inr ''o1''
   \<and> available (balances (snd (cancel_order example_exchange_holding ''o1''))) ''USDT'' = 10000
   \<and> holds (balances (snd (cancel_order example_exchange_holding ''o1''))) ''o1'' ''USDT'' = 0
   \<and> get_order (orders (snd (cancel_order example_exchange_holding ''o1''))) ''o1''
       = Some (example_order\<lparr>state := CANCELED\<rparr>)
   \<and> fst (cancel_order (snd (cancel_order example_exchange_holding ''o1'')) ''o1'')
       = Inl (Error_not_open ''o1'' CANCELED)"
    by (auto simp: g is_open_def)
  from cancel_order_spec [of example_exchange_holding "''o7''" "''USDT''"]
  have b: "fst (cancel_order example_exchange_holding ''o7'') = Inl Error_order_not_found"
    by (simp add: g7)
  from a b show ?thesis by simp
qed

subsection \<open>C5: the order of the steps of a bar event\<close>

text \<open>
  C5. When \<^verbatim>\<open>_on_bar_event\<close> returns for a bar, the last-bar cache of the bar's pair
  was set first, the matching of the open orders (\<^verbatim>\<open>_process_orders\<close>) then ran to
  completion on that state without forwarding anything and without touching the cache
  again, and the bar was pushed to the event source of the pair, when there is one,
  as the very last step: the exchange the subscriber sees has the balances and the
  orders that the matching left.
\<close>

theorem on_bar_event_order:
  assumes run: "on_bar_event cs ex (BarEvent b) = Inr ex'"
  shows "\<exists>ex2 m.
           process_orders cs
             (ex\<lparr>last_bars := (last_bars ex)(bar_pair b \<mapsto> b),
                calls := calls ex @ [Call_set_last_bar b]\<rparr>) b = Inr ex2
         \<and> calls ex2 = calls ex @ [Call_set_last_bar b] @ m
         \<and> (\<forall>c \<in> set m. (\<forall>e. c \<noteq> Call_push e) \<and> (\<forall>x. c \<noteq> Call_set_last_bar x))
         \<and> calls ex' = calls ex2 @ (case bar_event_source ex (bar_pair b) of
                                      None \<Rightarrow> [] | Some queue \<Rightarrow> [Call_push (BarEvent b)])
         \<and> balances ex' = balances ex2 \<and> orders ex' = orders ex2
         \<and> last_bars ex' = (last_bars ex)(bar_pair b \<mapsto> b)
         \<and> bar_event_source ex' =
             (case bar_event_source ex (bar_pair b) of
                None \<Rightarrow> bar_event_source ex
              | Some queue \<Rightarrow> (bar_event_source ex)(bar_pair b \<mapsto> queue @ [BarEvent b]))"
proof -
  define ex1 where "ex1 = ex\<lparr>last_bars := (last_bars ex)(bar_pair b \<mapsto> b),
                            calls := calls ex @ [Call_set_last_bar b]\<rparr>"
  have e1: "log_call (Call_set_last_bar b) (ex\<lparr>last_bars := (last_bars ex)(bar_pair b \<mapsto> b)\<rparr>) = ex1"
    by (simp add: log_call_def ex1_def)
  from run obtain ex2 where
    po: "process_orders cs ex1 b = Inr ex2"
    and fin: "ex' = (case bar_event_source ex2 (bar_pair b) of
                      None \<Rightarrow> ex2
                    | Some queue \<Rightarrow>
                        log_call (Call_push (BarEvent b))
                          (ex2\<lparr>bar_event_source :=
                                 (bar_event_source ex2)(bar_pair b \<mapsto> queue @ [BarEvent b])\<rparr>))"
    by (auto simp: on_bar_event_def Let_def e1 split: sum.splits option.splits)
  from process_orders_frame [OF po] obtain m0 where
    lb: "last_bars ex2 = last_bars ex1" and bs: "bar_event_source ex2 = bar_event_source ex1"
    and c: "calls ex2 = calls ex1
                  @ (case liquidity_strategies ex1 (bar_pair b) of
                       None \<Rightarrow> [Call_factory] | Some _ \<Rightarrow> [])
                  @ [Call_on_bar b] @ m0"
    and m0: "\<forall>c \<in> set m0. (\<forall>e. c \<noteq> Call_push e) \<and> (\<forall>x. c \<noteq> Call_set_last_bar x)
                                \<and> c \<noteq> Call_factory \<and> (\<forall>x. c \<noteq> Call_on_bar x)"
    by blast
  define m where "m = (case liquidity_strategies ex1 (bar_pair b) of
                       None \<Rightarrow> [Call_factory] | Some _ \<Rightarrow> [])
                  @ [Call_on_bar b] @ m0"
  have cm: "calls ex2 = calls ex @ [Call_set_last_bar b] @ m"
    using c by (simp add: m_def ex1_def)
  have mm: "\<forall>c \<in> set m. (\<forall>e. c \<noteq> Call_push e) \<and> (\<forall>x. c \<noteq> Call_set_last_bar x)"
    using m0 by (auto simp: m_def split: option.splits)
  have bs': "bar_event_source ex2 = bar_event_source ex"
    using bs by (simp add: ex1_def)
  have lb': "last_bars ex2 = (last_bars ex)(bar_pair b \<mapsto> b)"
    using lb by (simp add: ex1_def)
  have "calls ex' = calls ex2 @ (case bar_event_source ex (bar_pair b) of
                                      None \<Rightarrow> [] | Some queue \<Rightarrow> [Call_push (BarEvent b)])"
    "balances ex' = balances ex2" "orders ex' = orders ex2"
    "last_bars ex' = (last_bars ex)(bar_pair b \<mapsto> b)"
    "bar_event_source ex' =
             (case bar_event_source ex (bar_pair b) of
                None \<Rightarrow> bar_event_source ex
              | Some queue \<Rightarrow> (bar_event_source ex)(bar_pair b \<mapsto> queue @ [BarEvent b]))"
    using fin bs' lb' by (simp_all add: log_call_def split: option.splits)
  with po cm mm show ?thesis
    unfolding ex1_def by blast
qed


theorem on_bar_event_order_witness:
  "case on_bar_event example_collaborators example_exchange_subscribed
          (BarEvent (example_bar 100 100)) of
     Inl e \<Rightarrow> False
   | Inr ex' \<Rightarrow>
       calls ex' = [Call_set_last_bar (example_bar 100 100), Call_factory,
                    Call_on_bar (example_bar 100 100),
                    Call_get_balance_updates ''o1'', Call_take_liquidity 10,
                    Call_add_fill ''o1'' [(''BTC'', 10), (''USDT'', - 1000)] [(''USDT'', - 10)],
                    Call_order_updated ''o1'' [(''BTC'', 10), (''USDT'', - 1010)],
                    Call_push (BarEvent (example_bar 100 100))]
       \<and> last_bars ex' btc_usdt = Some (example_bar 100 100)
       \<and> bar_event_source ex' btc_usdt = Some [BarEvent (example_bar 100 100)]
       \<and> available (balances ex') ''BTC'' = 10
       \<and> available (balances ex') ''USDT'' = 8990"
proof -
  note run = example_bar_event
  from on_bar_event_order [OF run] obtain ex2 m where
    "last_bars
       (example_exchange_subscribed
            \<lparr>last_bars := (last_bars example_exchange_subscribed)(btc_usdt \<mapsto> example_bar 100 100),
             calls := [Call_set_last_bar (example_bar 100 100), Call_factory,
                       Call_on_bar (example_bar 100 100),
                       Call_get_balance_updates ''o1'', Call_take_liquidity 10,
                       Call_add_fill ''o1'' [(''BTC'', 10), (''USDT'', - 1000)] [(''USDT'', - 10)],
                       Call_order_updated ''o1'' [(''BTC'', 10), (''USDT'', - 1010)],
                       Call_push (BarEvent (example_bar 100 100))],
             balances := order_updated (balances example_exchange_holding)
                                 (example_order\<lparr>amount_filled := 10, fees := [(''USDT'', - 10)],
                                                state := COMPLETED\<rparr>)
                                 [(''BTC'', 10), (''USDT'', - 1010)],
             orders := \<lparr>orders_by_id = [''o1'' \<mapsto> example_order\<lparr>amount_filled := 10,
                                             fees := [(''USDT'', - 10)], state := COMPLETED\<rparr>],
                        open_orders = [''o1''], reindex_every = 50, reindex_counter = 1\<rparr>,
             bar_event_source := [btc_usdt \<mapsto> [BarEvent (example_bar 100 100)]]\<rparr>)
     = (last_bars example_exchange_subscribed)(bar_pair (example_bar 100 100) \<mapsto> example_bar 100 100)"
    by blast
  then show ?thesis
    unfolding run
    by (simp add: order_updated_def is_open_def release_holds_def apply_delta_def Let_def)
qed

subsection \<open>C2: the liquidity strategy of a pair\<close>

text \<open>
  C2. The liquidity strategy of a pair is specified to be built from the factory at
  most once and reused for the later bars of the pair. \<^verbatim>\<open>_process_orders\<close> looks
  the pair up in \<^verbatim>\<open>_liquidity_strategies\<close> and calls the factory when there is no
  entry, but never stores the instance: after a bar of a pair with no entry the
  dictionary is what it was, the pair still has no entry, and the factory has been
  called. Since the dictionary starts empty, every bar builds a new strategy.
\<close>

theorem liquidity_strategy_never_cached:
  assumes none: "liquidity_strategies ex (bar_pair b) = None"
      and run: "on_bar_event cs ex (BarEvent b) = Inr ex'"
  shows "liquidity_strategies ex' = liquidity_strategies ex
       \<and> liquidity_strategies ex' (bar_pair b) = None
       \<and> (\<exists>m. calls ex' = calls ex @ [Call_set_last_bar b, Call_factory, Call_on_bar b] @ m)"
proof -
  define ex1 where "ex1 = ex\<lparr>last_bars := (last_bars ex)(bar_pair b \<mapsto> b),
                            calls := calls ex @ [Call_set_last_bar b]\<rparr>"
  have e1: "log_call (Call_set_last_bar b) (ex\<lparr>last_bars := (last_bars ex)(bar_pair b \<mapsto> b)\<rparr>) = ex1"
    by (simp add: log_call_def ex1_def)
  from run obtain ex2 where
    po: "process_orders cs ex1 b = Inr ex2"
    and fin: "ex' = (case bar_event_source ex2 (bar_pair b) of
                      None \<Rightarrow> ex2
                    | Some queue \<Rightarrow>
                        log_call (Call_push (BarEvent b))
                          (ex2\<lparr>bar_event_source :=
                                 (bar_event_source ex2)(bar_pair b \<mapsto> queue @ [BarEvent b])\<rparr>))"
    by (auto simp: on_bar_event_def Let_def e1 split: sum.splits option.splits)
  have none1: "liquidity_strategies ex1 (bar_pair b) = None"
    using none by (simp add: ex1_def)
  from process_orders_frame [OF po] none1 obtain m0 where
    ls: "liquidity_strategies ex2 = liquidity_strategies ex1"
    and c: "calls ex2 = calls ex1 @ [Call_factory] @ [Call_on_bar b] @ m0"
    by auto
  have ls': "liquidity_strategies ex' = liquidity_strategies ex"
    using fin ls by (simp add: ex1_def log_call_def split: option.splits)
  have "\<exists>m. calls ex' = calls ex @ [Call_set_last_bar b, Call_factory, Call_on_bar b] @ m"
    using fin c by (auto simp: ex1_def log_call_def split: option.splits)
  with ls' none show ?thesis by simp
qed

theorem liquidity_strategy_never_cached_witness:
  "case on_bar_event example_collaborators example_exchange (BarEvent (example_bar 100 100)) of
     Inl e \<Rightarrow> False
   | Inr ex1 \<Rightarrow>
       (case on_bar_event example_collaborators ex1 (BarEvent (example_bar 100 105)) of
          Inl e \<Rightarrow> False
        | Inr ex2 \<Rightarrow>
            liquidity_strategies ex1 btc_usdt = None
            \<and> liquidity_strategies ex2 btc_usdt = None
            \<and> calls ex2 = [Call_set_last_bar (example_bar 100 100), Call_factory,
                           Call_on_bar (example_bar 100 100),
                           Call_set_last_bar (example_bar 100 105), Call_factory,
                           Call_on_bar (example_bar 100 105)])"
proof -
  define E1 where "E1 = example_exchange
      \<lparr>last_bars := (last_bars example_exchange)(bar_pair (example_bar 100 100) \<mapsto> example_bar 100 100),
       calls := calls example_exchange
                  @ [Call_set_last_bar (example_bar 100 100), Call_factory, Call_on_bar (example_bar 100 100)],
       orders := (orders example_exchange)
                     \<lparr>open_orders := [],
                      reindex_counter := reindex_counter (orders example_exchange) + 1\<rparr>\<rparr>"
  have r1: "on_bar_event example_collaborators example_exchange (BarEvent (example_bar 100 100)) = Inr E1"
    unfolding E1_def by (rule on_bar_event_no_orders) (simp_all add: ex_defs)
  have n0: "liquidity_strategies example_exchange (bar_pair (example_bar 100 100)) = None"
    by (simp add: ex_defs)
  have n1: "liquidity_strategies E1 (bar_pair (example_bar 100 105)) = None"
    using liquidity_strategy_never_cached [OF n0 r1] n0 by (simp add: example_bar_def)
  have o1: "open_orders (orders E1) = []" "bar_event_source E1 (bar_pair (example_bar 100 105)) = None"
    by (simp_all add: E1_def) (simp add: ex_defs)
  note r2 = on_bar_event_no_orders [OF o1(1) n1 o1(2), of example_collaborators]
  have c1: "calls E1 = [Call_set_last_bar (example_bar 100 100), Call_factory,
                        Call_on_bar (example_bar 100 100)]"
    by (simp add: E1_def) (simp add: ex_defs)
  from liquidity_strategy_never_cached [OF n1 r2] n1
  have n2: "liquidity_strategies E1 btc_usdt = None" by simp
  show ?thesis
    unfolding r1 by (simp add: r2 n2 c1)
qed

subsection \<open>C9: one iteration of the open orders\<close>

text \<open>
  C9. One full iteration of \<^verbatim>\<open>OrderIndex.get_open_orders\<close> over a list of distinct
  references (\<^verbatim>\<open>add_order\<close> appends a reference once, at the end, so the list is in
  insertion order and stays distinct), by a consumer that changes only the order it
  was given. The references yielded are distinct and are exactly the references of the
  list, in the order of the list, whose order was open when the iteration began; every
  order is open when it is yielded. The counter goes up by one. When the new counter
  is a multiple of 50 the list becomes the references of the old list whose order is
  still open after the iteration, so an order closed by the consumer is dropped;
  otherwise the list is kept as it is, closed orders included.
\<close>

theorem get_open_orders_iteration:
  assumes d: "distinct (open_orders idx)"
      and every: "reindex_every idx = 50"
      and run: "get_open_orders body idx w = Inr (idx', w', yielded)"
  shows "distinct (map fst yielded)
       \<and> map fst yielded = filter (open_in (orders_by_id idx)) (open_orders idx)
       \<and> subseq (map fst yielded) (open_orders idx)
       \<and> (\<forall>(r, ord) \<in> set yielded. orders_by_id idx r = Some ord \<and> is_open ord)
       \<and> reindex_counter idx' = reindex_counter idx + 1
       \<and> reindex_every idx' = 50
       \<and> open_orders idx' =
           (if (reindex_counter idx + 1) mod 50 = 0
            then filter (open_in (orders_by_id idx')) (open_orders idx)
            else open_orders idx)
       \<and> distinct (open_orders idx')"
proof -
  define new where "new = (if (reindex_counter idx + 1) mod 50 = 0 then Some [] else None :: string list option)"
  from run obtain store' new' where
    loop: "open_orders_loop body (open_orders idx) (orders_by_id idx) new w []
             = Inr (store', new', w', yielded)"
    and idx': "idx' = idx\<lparr>orders_by_id := store',
                         open_orders := (case new' of None \<Rightarrow> open_orders idx | Some l \<Rightarrow> l),
                         reindex_counter := reindex_counter idx + 1\<rparr>"
    by (auto simp: get_open_orders_def Let_def every new_def split: sum.splits)
  from open_orders_loop_yielded [OF loop d] have
    m: "map fst yielded = filter (open_in (orders_by_id idx)) (open_orders idx)"
    and a: "\<forall>(r, ord) \<in> set yielded. orders_by_id idx r = Some ord \<and> is_open ord"
    by auto
  have n: "new' = map_option (\<lambda>l. l @ filter (open_in store') (open_orders idx)) new"
    by (rule open_orders_loop_new [OF loop d])
  have o: "open_orders idx' =
           (if (reindex_counter idx + 1) mod 50 = 0
            then filter (open_in (orders_by_id idx')) (open_orders idx)
            else open_orders idx)"
    using n by (simp add: idx' new_def)
  have "distinct (map fst yielded)" unfolding m using d by simp
  moreover have "subseq (map fst yielded) (open_orders idx)" unfolding m by simp
  moreover have "distinct (open_orders idx')" unfolding o using d by simp
  moreover have "reindex_counter idx' = reindex_counter idx + 1" "reindex_every idx' = 50"
    using every by (simp_all add: idx')
  ultimately show ?thesis using m a o by blast
qed


theorem get_open_orders_iteration_witness:
  "distinct (open_orders example_index) \<and> reindex_every example_index = 50
   \<and> (case get_open_orders example_consumer example_index [] of
        Inl e \<Rightarrow> False
      | Inr (idx', w', yielded) \<Rightarrow>
          map fst yielded = [''o1'', ''o3''] \<and> w' = [''o1'', ''o3'']
          \<and> open_orders idx' = [''o3''] \<and> reindex_counter idx' = 50
          \<and> filter (open_in (orders_by_id example_index)) (open_orders example_index)
              = [''o1'', ''o3''])"
proof -
  have d: "distinct (open_orders example_index)" and e: "reindex_every example_index = 50"
    by (simp_all add: example_index_def)
  from get_open_orders_iteration [OF d e example_iteration]
  have "map fst [(''o1'', example_order), (''o3'', example_order\<lparr>order_id := ''o3''\<rparr>)]
          = filter (open_in (orders_by_id example_index)) (open_orders example_index)"
    by blast
  then show ?thesis using d e unfolding example_iteration by simp
qed

end
